theory Spec2Isabelle
  imports Complex_Main
begin

section \<open>Hamiltonian Monte Carlo update of \<^verbatim>\<open>edward/inferences/hmc.py\<close>\<close>

subsection \<open>Errors\<close>

text \<open>
  The Python exceptions the update can raise: a missing dictionary key, an index outside
  a list or outside the first dimension of a tensor, and operands whose shapes do not fit.
\<close>

datatype error = KeyError | IndexError | ValueError

subsection \<open>Dictionaries\<close>

text \<open>
  A Python dictionary is kept as its entries in the order in which the keys were first
  stored: a store to a key that is present replaces the value where it stands, a store
  to a new key adds an entry. Look-up and store do not depend on that order.
\<close>

type_synonym ('k, 'v) dict = "('k \<times> 'v) list"

definition dict_get :: "('k, 'v) dict \<Rightarrow> 'k \<Rightarrow> error + 'v" where
  "dict_get d k = (case map_of d k of None \<Rightarrow> Inl KeyError | Some v \<Rightarrow> Inr v)"

fun dict_set :: "('k, 'v) dict \<Rightarrow> 'k \<Rightarrow> 'v \<Rightarrow> ('k, 'v) dict" where
  "dict_set [] k v = [(k, v)]"
| "dict_set ((k', v') # d) k v =
     (if k' = k then (k, v) # d else (k', v') # dict_set d k v)"

text \<open>
  The order in which a dictionary is iterated need not be the order in which it was
  filled.
  The interpreters this module is written for (it imports \<^verbatim>\<open>six\<close> and
  \<^verbatim>\<open>__future__\<close>) keep a dictionary in a hash table and iterate its slots; where
  a key lies depends on its hash and on the keys stored before it. The order is
  therefore a parameter of the model, the \<^emph>\<open>layout\<close>: a function from the keys of a
  dictionary, in the order they were stored, to the order in which the interpreter
  iterates them. Two dictionaries of one run that were filled with the same keys in the
  same order iterate alike; a dictionary filled in the iteration order of another need
  not iterate like that other one. The update iterates its dictionaries several times
  (\<^verbatim>\<open>iterkeys\<close>, \<^verbatim>\<open>itervalues\<close>, \<^verbatim>\<open>iteritems\<close>) and pairs the
  results by position. Iterations of one dictionary that is not changed in between
  agree, so the keys and the values of an iteration are those of its items.
\<close>

type_synonym 'k layout = "'k list \<Rightarrow> 'k list"

definition iteritems :: "'k layout \<Rightarrow> ('k, 'v) dict \<Rightarrow> ('k \<times> 'v) list" where
  "iteritems lay d =
     List.map_filter (\<lambda>k. map_option (Pair k) (map_of d k)) (lay (map fst d))"

definition iterkeys :: "'k layout \<Rightarrow> ('k, 'v) dict \<Rightarrow> 'k list" where
  "iterkeys lay d = map fst (iteritems lay d)"

definition itervalues :: "'k layout \<Rightarrow> ('k, 'v) dict \<Rightarrow> 'v list" where
  "itervalues lay d = map snd (iteritems lay d)"

text \<open>
  What every interpreter guarantees: an iteration visits each key of the dictionary
  once.
\<close>

definition layout_ok :: "'k layout \<Rightarrow> bool" where
  "layout_ok lay \<longleftrightarrow> (\<forall>ks. distinct ks \<longrightarrow> distinct (lay ks) \<and> set (lay ks) = set ks)"

text \<open>A dictionary comprehension \<^verbatim>\<open>{k: v for k, v in pairs}\<close>: later pairs win.\<close>

fun dict_of :: "('k \<times> 'v) list \<Rightarrow> ('k, 'v) dict \<Rightarrow> ('k, 'v) dict" where
  "dict_of [] d = d"
| "dict_of ((k, v) # kvs) d = dict_of kvs (dict_set d k v)"

text \<open>\<^verbatim>\<open>enumerate\<close> pairs every element with its position.\<close>

definition enumerate_from :: "nat \<Rightarrow> 'a list \<Rightarrow> (nat \<times> 'a) list" where
  "enumerate_from i xs = zip [i ..< i + length xs] xs"

definition list_get :: "'a list \<Rightarrow> nat \<Rightarrow> error + 'a" where
  "list_get xs i = (if i < length xs then Inr (xs ! i) else Inl IndexError)"

text \<open>A \<^verbatim>\<open>for\<close> loop whose body may raise: the first exception ends the loop.\<close>

fun for_each :: "('a \<Rightarrow> 's \<Rightarrow> error + 's) \<Rightarrow> 'a list \<Rightarrow> 's \<Rightarrow> error + 's" where
  "for_each body [] s = Inr s"
| "for_each body (x # xs) s =
     (case body x s of Inl e \<Rightarrow> Inl e | Inr s' \<Rightarrow> for_each body xs s')"

subsection \<open>Tensors\<close>

text \<open>
  A tensor is its shape and its elements in row-major order; a well-formed tensor has
  as many elements as the product of its shape. Positions, momenta and gradients are
  real-valued: the arithmetic of the integrator is modelled exactly. The operations the
  update uses are elementwise on operands of one shape and a scalar times a tensor.
  Operands that do not fit are a \<^const>\<open>ValueError\<close>; broadcasting between two tensors
  of different shapes is not modelled.
\<close>

datatype tensor = Tensor (shape: "nat list") (elems: "real list")

definition has_shape :: "nat list \<Rightarrow> tensor \<Rightarrow> bool" where
  "has_shape s x \<longleftrightarrow> shape x = s \<and> length (elems x) = prod_list s"

definition same_shape :: "tensor \<Rightarrow> tensor \<Rightarrow> bool" where
  "same_shape a b \<longleftrightarrow> shape a = shape b \<and> length (elems a) = length (elems b)"

definition tf_add :: "tensor \<Rightarrow> tensor \<Rightarrow> error + tensor" where
  "tf_add a b =
     (if same_shape a b then Inr (Tensor (shape a) (map2 (+) (elems a) (elems b)))
      else Inl ValueError)"

definition tf_scale :: "real \<Rightarrow> tensor \<Rightarrow> tensor" where
  "tf_scale c a = Tensor (shape a) (map (\<lambda>x. c * x) (elems a))"

definition tf_square :: "tensor \<Rightarrow> tensor" where
  "tf_square a = Tensor (shape a) (map (\<lambda>x. x * x) (elems a))"

text \<open>
  \<^verbatim>\<open>tf.reduce_sum\<close> of a Python list of tensors first packs the list into one tensor,
  which needs every entry to have the shape of the first, and then adds up all elements;
  the sum of the empty list is 0.
\<close>

definition tf_reduce_sum :: "tensor list \<Rightarrow> error + real" where
  "tf_reduce_sum xs =
     (if list_all (\<lambda>x. same_shape x (hd xs)) xs
      then Inr (sum_list (map (\<lambda>x. sum_list (elems x)) xs))
      else Inl ValueError)"

subsection \<open>Scalars that may not be finite\<close>

text \<open>
  The log density and the log acceptance ratio are floating-point scalars whose
  non-finite values matter to the accept test. They are modelled as a real number or one
  of the three IEEE 754 special values, with the IEEE rules for sum, difference and
  comparison: every comparison with NaN is false.
\<close>

datatype fnum = Fin real | PosInf | NegInf | NaN

fun fneg :: "fnum \<Rightarrow> fnum" where
  "fneg (Fin x) = Fin (- x)"
| "fneg PosInf = NegInf"
| "fneg NegInf = PosInf"
| "fneg NaN = NaN"

fun fadd :: "fnum \<Rightarrow> fnum \<Rightarrow> fnum" where
  "fadd NaN _ = NaN"
| "fadd _ NaN = NaN"
| "fadd (Fin x) (Fin y) = Fin (x + y)"
| "fadd PosInf NegInf = NaN"
| "fadd NegInf PosInf = NaN"
| "fadd PosInf _ = PosInf"
| "fadd _ PosInf = PosInf"
| "fadd NegInf _ = NegInf"
| "fadd _ NegInf = NegInf"

definition fsub :: "fnum \<Rightarrow> fnum \<Rightarrow> fnum" where
  "fsub a b = fadd a (fneg b)"

fun fless :: "fnum \<Rightarrow> fnum \<Rightarrow> bool" where
  "fless NaN _ = False"
| "fless _ NaN = False"
| "fless (Fin x) (Fin y) = (x < y)"
| "fless _ NegInf = False"
| "fless PosInf _ = False"
| "fless NegInf _ = True"
| "fless _ PosInf = True"

text \<open>\<^verbatim>\<open>tf.log\<close> of a real scalar: \<open>-\<infinity>\<close> at 0 and NaN below.\<close>

definition tf_log :: "real \<Rightarrow> fnum" where
  "tf_log u = (if 0 < u then Fin (ln u) else if u = 0 then NegInf else NaN)"

subsection \<open>The log joint density\<close>

text \<open>
  A latent variable is identified by its name. A state maps latent variables to tensors.
  \<^verbatim>\<open>HMC.log_joint\<close> builds the density from the model's random variables with
  \<^verbatim>\<open>edward.util.copy\<close>, \<^verbatim>\<open>log_prob\<close> and the model wrapper, none of which
  \<^verbatim>\<open>hmc.py\<close> defines; the update uses it through its value at a state and, by
  \<^verbatim>\<open>tf.gradients\<close>, through its derivative with respect to each tensor of that
  state. The density is therefore a parameter of the model: a value and a gradient, both
  functions of the state alone, so two evaluations at one state agree. (When the data binds
  a random variable to another random variable, every call of \<^verbatim>\<open>log_joint\<close>
  draws that variable afresh; such a density is not a function of the state and is outside
  this model.) The gradient of a tensor on which the density does not depend is taken to
  be a tensor, as it is for every latent variable, whose own prior term depends on it.
\<close>

type_synonym rv = string

type_synonym state = "(rv, tensor) dict"

record density =
  log_density :: "state \<Rightarrow> fnum"
  grad_density :: "state \<Rightarrow> rv \<Rightarrow> tensor"

text \<open>
  \<^verbatim>\<open>tf.gradients(log_joint(z), list(six.itervalues(z)))\<close>: one gradient for each
  tensor of the list, in the order of the list.
\<close>

definition tf_gradients :: "rv layout \<Rightarrow> density \<Rightarrow> state \<Rightarrow> tensor list" where
  "tf_gradients lay log_joint z =
     map (\<lambda>key. grad_density log_joint z key) (iterkeys lay z)"

subsection \<open>The leapfrog step\<close>

text \<open>
  The body of the first loop of \<^verbatim>\<open>leapfrog\<close>: the half step of the momentum and the
  full step of the position for one key.
\<close>

definition leapfrog_body1 ::
  "state \<Rightarrow> state \<Rightarrow> real \<Rightarrow> tensor list \<Rightarrow> nat \<times> rv \<Rightarrow> state \<times> state
    \<Rightarrow> error + (state \<times> state)" where
  "leapfrog_body1 z_old r_old step_size grad_log_joint ik acc =
     (case ik of (i, key) \<Rightarrow> (case acc of (z_new, r_new) \<Rightarrow>
      (case dict_get z_old key of Inl e \<Rightarrow> Inl e | Inr z \<Rightarrow>
      (case dict_get r_old key of Inl e \<Rightarrow> Inl e | Inr r \<Rightarrow>
      (case list_get grad_log_joint i of Inl e \<Rightarrow> Inl e | Inr g \<Rightarrow>
      (case tf_add r (tf_scale (0.5 * step_size) g) of Inl e \<Rightarrow> Inl e | Inr rk \<Rightarrow>
      (let r_new = dict_set r_new key rk in
      (case dict_get r_new key of Inl e \<Rightarrow> Inl e | Inr rk' \<Rightarrow>
      (case tf_add z (tf_scale step_size rk') of Inl e \<Rightarrow> Inl e | Inr zk \<Rightarrow>
      Inr (dict_set z_new key zk, r_new))))))))))"

text \<open>The body of the second loop: the second half step of the momentum.\<close>

definition leapfrog_body2 ::
  "real \<Rightarrow> tensor list \<Rightarrow> nat \<times> rv \<Rightarrow> state \<Rightarrow> error + state" where
  "leapfrog_body2 step_size grad_log_joint ik r_new =
     (case ik of (i, key) \<Rightarrow>
      (case dict_get r_new key of Inl e \<Rightarrow> Inl e | Inr r \<Rightarrow>
      (case list_get grad_log_joint i of Inl e \<Rightarrow> Inl e | Inr g \<Rightarrow>
      (case tf_add r (tf_scale (0.5 * step_size) g) of Inl e \<Rightarrow> Inl e | Inr rk \<Rightarrow>
      Inr (dict_set r_new key rk)))))"

definition leapfrog ::
  "rv layout \<Rightarrow> state \<Rightarrow> state \<Rightarrow> real \<Rightarrow> density \<Rightarrow> error + (state \<times> state)" where
  "leapfrog lay z_old r_old step_size log_joint =
     (case for_each (leapfrog_body1 z_old r_old step_size (tf_gradients lay log_joint z_old))
             (enumerate_from 0 (iterkeys lay z_old)) ([], []) of
        Inl e \<Rightarrow> Inl e
      | Inr (z_new, r_new) \<Rightarrow>
          (case for_each (leapfrog_body2 step_size (tf_gradients lay log_joint z_new))
                  (enumerate_from 0 (iterkeys lay z_old)) r_new of
             Inl e \<Rightarrow> Inl e
           | Inr r_new' \<Rightarrow> Inr (z_new, r_new')))"

subsection \<open>The sampler and its chain store\<close>

text \<open>
  An \<^verbatim>\<open>Empirical\<close> random variable holds the chain of one latent variable: a
  variable \<^verbatim>\<open>params\<close> whose rows are the samples, each of the event shape. The
  object keeps, besides the arguments of \<^verbatim>\<open>initialize\<close>, the step counter \<^verbatim>\<open>t\<close>
  and the acceptance counter \<^verbatim>\<open>n_accept\<close> of \<^verbatim>\<open>MonteCarlo\<close>, both
  integer variables of the graph; they are integers here, without the wrap-around of a
  32-bit counter. \<^verbatim>\<open>n_steps\<close> is a Python integer.
\<close>

record empirical =
  event_shape :: "nat list"
  params :: "tensor list"

record hmc =
  latent_vars :: "(rv, empirical) dict"
  step_size :: real
  n_steps :: int
  t_var :: int
  n_accept :: int

definition get_event_shape :: "empirical \<Rightarrow> nat list" where
  "get_event_shape qz = event_shape qz"

text \<open>\<^verbatim>\<open>tf.gather\<close> of one row; an index outside the rows is an error.\<close>

definition tf_gather :: "tensor list \<Rightarrow> int \<Rightarrow> error + tensor" where
  "tf_gather rows i =
     (if 0 \<le> i \<and> i < int (length rows) then Inr (rows ! nat i) else Inl IndexError)"

text \<open>
  The random draws of one step are inputs: a stream of standard normal numbers, read
  from a position that advances, and the uniform number of the accept test. A sample of
  \<^verbatim>\<open>Normal(mu=tf.zeros(s), sigma=tf.ones(s))\<close> is a tensor of shape \<open>s\<close> of
  fresh standard normal numbers.
\<close>

definition normal_sample :: "nat list \<Rightarrow> (nat \<Rightarrow> real) \<Rightarrow> nat \<Rightarrow> tensor \<times> nat" where
  "normal_sample s gauss c =
     (Tensor s (map gauss [c ..< c + prod_list s]), c + prod_list s)"

text \<open>
  The assignments a step returns, grouped, for the session to run. The method finds the
  variable of a chain by its name among the variables of the graph; it is the variable
  behind \<^verbatim>\<open>qz.params\<close>, named here by its latent variable.
\<close>

datatype assign_op = ScatterUpdate rv int tensor | AssignAdd int

text \<open>
  \<^verbatim>\<open>tf.cond\<close> returns a tensor, not a list, when the branches return a list of
  size 1.
\<close>

datatype cond_result = OneTensor tensor | TensorList "tensor list"

definition tf_cond :: "bool \<Rightarrow> tensor list \<Rightarrow> tensor list \<Rightarrow> cond_result" where
  "tf_cond p a b =
     (case (if p then a else b) of [x] \<Rightarrow> OneTensor x | xs \<Rightarrow> TensorList xs)"

definition tf_select :: "bool \<Rightarrow> int \<Rightarrow> int \<Rightarrow> int" where
  "tf_select p a b = (if p then a else b)"

definition py_range :: "int \<Rightarrow> nat list" where
  "py_range n = [0 ..< nat n]"

subsection \<open>\<^verbatim>\<open>build_update\<close>\<close>

text \<open>
  The method returns the group of assignments. The record below also keeps the local
  values of the method that the properties speak of.
\<close>

record update =
  old_sample :: state
  old_r_sample :: state
  new_sample :: state
  new_r_sample :: state
  ratio :: fnum
  accept :: bool
  sample :: state
  assign_ops :: "assign_op list"

definition read_old_sample :: "int \<Rightarrow> rv \<times> empirical \<Rightarrow> state \<Rightarrow> error + state" where
  "read_old_sample t zqz d =
     (case zqz of (z, qz) \<Rightarrow>
      (case tf_gather (params qz) (max (t - 1) 0) of
         Inl e \<Rightarrow> Inl e
       | Inr x \<Rightarrow> Inr (dict_set d z x)))"

fun sample_momentum ::
  "(nat \<Rightarrow> real) \<Rightarrow> (rv \<times> empirical) list \<Rightarrow> nat \<Rightarrow> state \<Rightarrow> state" where
  "sample_momentum gauss [] c old_r = old_r"
| "sample_momentum gauss ((z, qz) # rest) c old_r =
     (case normal_sample (get_event_shape qz) gauss c of
        (x, c') \<Rightarrow> sample_momentum gauss rest c' (dict_set old_r z x))"

definition kinetic_terms :: "rv layout \<Rightarrow> state \<Rightarrow> tensor list" where
  "kinetic_terms lay r_sample =
     map (\<lambda>r. tf_scale 0.5 (tf_square r)) (itervalues lay r_sample)"

definition scatter_op :: "int \<Rightarrow> state \<Rightarrow> rv \<times> empirical \<Rightarrow> assign_op list
    \<Rightarrow> error + assign_op list" where
  "scatter_op t smp zqz ops =
     (case zqz of (z, qz) \<Rightarrow>
      (case dict_get smp z of
         Inl e \<Rightarrow> Inl e
       | Inr x \<Rightarrow> Inr (ops @ [ScatterUpdate z t x])))"

definition build_update ::
  "rv layout \<Rightarrow> hmc \<Rightarrow> density \<Rightarrow> (nat \<Rightarrow> real) \<Rightarrow> real \<Rightarrow> error + update" where
  "build_update lay self log_joint gauss u =
     (case for_each (read_old_sample (t_var self)) (iteritems lay (latent_vars self)) [] of
        Inl e \<Rightarrow> Inl e
      | Inr old_s \<Rightarrow>
     (let old_r = sample_momentum gauss (iteritems lay (latent_vars self)) 0 [] in
     (case for_each (\<lambda>_ _. leapfrog lay old_s old_r (step_size self) log_joint)
             (py_range (n_steps self)) (old_s, old_r) of
        Inl e \<Rightarrow> Inl e
      | Inr (new_s, new_r) \<Rightarrow>
     (case tf_reduce_sum (kinetic_terms lay old_r) of
        Inl e \<Rightarrow> Inl e
      | Inr k_old \<Rightarrow>
     (case tf_reduce_sum (kinetic_terms lay new_r) of
        Inl e \<Rightarrow> Inl e
      | Inr k_new \<Rightarrow>
     (let rat = Fin k_old;
          rat = fsub rat (Fin k_new);
          rat = fadd rat (log_density log_joint new_s);
          rat = fsub rat (log_density log_joint old_s);
          acc = fless (tf_log u) rat;
          sample_values = (case tf_cond acc (itervalues lay new_s) (itervalues lay old_s) of
                             OneTensor x \<Rightarrow> [x]
                           | TensorList xs \<Rightarrow> xs);
          smp = dict_of (zip (iterkeys lay new_s) sample_values) []
      in (case for_each (scatter_op (t_var self) smp) (iteritems lay (latent_vars self)) [] of
            Inl e \<Rightarrow> Inl e
          | Inr ops \<Rightarrow>
              Inr \<lparr>old_sample = old_s, old_r_sample = old_r, new_sample = new_s,
                   new_r_sample = new_r, ratio = rat, accept = acc, sample = smp,
                   assign_ops = ops @ [AssignAdd (tf_select acc 1 0)]\<rparr>)))))))"

subsection \<open>Running the assignments\<close>

text \<open>
  \<^verbatim>\<open>tf.scatter_update(variable, t, x)\<close> replaces row \<open>t\<close> of the chain of one
  latent variable; \<^verbatim>\<open>assign_add\<close> adds to the acceptance counter.
\<close>

definition run_op :: "assign_op \<Rightarrow> hmc \<Rightarrow> error + hmc" where
  "run_op a self =
     (case a of
        ScatterUpdate z i x \<Rightarrow>
          (case dict_get (latent_vars self) z of
             Inl e \<Rightarrow> Inl e
           | Inr qz \<Rightarrow>
               if 0 \<le> i \<and> i < int (length (params qz))
               then Inr (self\<lparr>latent_vars :=
                      dict_set (latent_vars self) z (qz\<lparr>params := (params qz)[nat i := x]\<rparr>)\<rparr>)
               else Inl IndexError)
      | AssignAdd d \<Rightarrow> Inr (self\<lparr>n_accept := n_accept self + d\<rparr>))"

definition run_update :: "assign_op list \<Rightarrow> hmc \<Rightarrow> error + hmc" where
  "run_update ops self = for_each run_op ops self"

section \<open>Definitions for the properties\<close>

subsection \<open>Two layouts\<close>

text \<open>
  Two orders of iteration that interpreters show. The first is the order in which the
  keys were stored. The second is what a hash table of eight slots with open addressing,
  such as CPython 2.7 keeps for a small dictionary, does with two keys whose hashes are
  7 and 15: the key stored first takes slot 7, the probe moves the key stored second to
  slot 3, and the slots are iterated upwards, so the two keys come out in the reverse of
  the order in which they were stored, whichever of them was stored first. It is used
  below for dictionaries of two keys only.
\<close>

definition insertion_order :: "'k layout" where
  "insertion_order ks = ks"

definition reverse_order :: "'k layout" where
  "reverse_order ks = rev ks"

subsection \<open>Loops as maps\<close>

text \<open>
  The loops of the update visit the keys of a dictionary and store one value for each.
  When the keys are distinct, such a loop is a map over the keys that stops at the first
  error; the lemmas below rewrite each loop into this form.
\<close>

fun map_err :: "('a \<Rightarrow> error + 'b) \<Rightarrow> 'a list \<Rightarrow> error + 'b list" where
  "map_err f [] = Inr []"
| "map_err f (x # xs) =
     (case f x of Inl e \<Rightarrow> Inl e | Inr y \<Rightarrow>
        (case map_err f xs of Inl e \<Rightarrow> Inl e | Inr ys \<Rightarrow> Inr (y # ys)))"

text \<open>
  What the first loop of \<^const>\<open>leapfrog\<close> computes for one key, the new position
  and the half-updated momentum, and what the second loop computes from one momentum
  and the gradient at its position in the list of gradients.
\<close>

definition kick_drift ::
  "state \<Rightarrow> state \<Rightarrow> real \<Rightarrow> density \<Rightarrow> rv \<Rightarrow> error + (tensor \<times> tensor)" where
  "kick_drift z_old r_old h lj key =
     (case dict_get z_old key of Inl e \<Rightarrow> Inl e | Inr z \<Rightarrow>
     (case dict_get r_old key of Inl e \<Rightarrow> Inl e | Inr r \<Rightarrow>
     (case tf_add r (tf_scale (0.5 * h) (grad_density lj z_old key)) of
        Inl e \<Rightarrow> Inl e
      | Inr rk \<Rightarrow>
     (case tf_add z (tf_scale h rk) of Inl e \<Rightarrow> Inl e | Inr zk \<Rightarrow> Inr (zk, rk)))))"

definition kick :: "real \<Rightarrow> tensor \<times> tensor \<Rightarrow> error + tensor" where
  "kick h rg = (case rg of (r, g) \<Rightarrow> tf_add r (tf_scale (0.5 * h) g))"

definition leapfrog_maps ::
  "rv layout \<Rightarrow> state \<Rightarrow> state \<Rightarrow> real \<Rightarrow> density \<Rightarrow> error + (state \<times> state)" where
  "leapfrog_maps lay z r h lj =
     (case map_err (kick_drift z r h lj) (iterkeys lay z) of
        Inl e \<Rightarrow> Inl e
      | Inr ps \<Rightarrow>
          (case map_err (kick h)
                  (zip (map snd ps)
                     (tf_gradients lay lj (zip (iterkeys lay z) (map fst ps)))) of
             Inl e \<Rightarrow> Inl e
           | Inr rs \<Rightarrow> Inr (zip (iterkeys lay z) (map fst ps), zip (iterkeys lay z) rs)))"

text \<open>
  The momentum tensors that \<^const>\<open>sample_momentum\<close> draws, in order.
\<close>

fun momentum_draws :: "(nat \<Rightarrow> real) \<Rightarrow> (rv \<times> empirical) list \<Rightarrow> nat \<Rightarrow> tensor list" where
  "momentum_draws gauss [] c = []"
| "momentum_draws gauss (zqz # rest) c =
     fst (normal_sample (get_event_shape (snd zqz)) gauss c) #
     momentum_draws gauss rest (snd (normal_sample (get_event_shape (snd zqz)) gauss c))"

text \<open>
  What an assignment adds to the acceptance counter, and a chain after a write.
\<close>

definition add_amount :: "assign_op \<Rightarrow> int" where
  "add_amount a = (case a of ScatterUpdate z i x \<Rightarrow> 0 | AssignAdd d \<Rightarrow> d)"

definition write_row :: "int \<Rightarrow> empirical \<Rightarrow> tensor \<Rightarrow> empirical" where
  "write_row t qz x = qz\<lparr>params := (params qz)[nat t := x]\<rparr>"

subsection \<open>The integrator and the energy as the specification words them\<close>

text \<open>
  The specification's integrator repeats the leapfrog step \<open>n\<close> times, each step
  starting from the point the step before it produced.
\<close>

fun leapfrog_steps ::
  "rv layout \<Rightarrow> nat \<Rightarrow> state \<times> state \<Rightarrow> real \<Rightarrow> density \<Rightarrow> error + (state \<times> state)" where
  "leapfrog_steps lay 0 zr h lj = Inr zr"
| "leapfrog_steps lay (Suc n) zr h lj =
     (case leapfrog lay (fst zr) (snd zr) h lj of
        Inl e \<Rightarrow> Inl e
      | Inr zr' \<Rightarrow> leapfrog_steps lay n zr' h lj)"

text \<open>
  The specification's kinetic energy: one half of the sum of the squares of every
  element of every tensor of a momentum state.
\<close>

definition kinetic_energy :: "state \<Rightarrow> real" where
  "kinetic_energy r = (\<Sum>x\<leftarrow>map snd r. \<Sum>v\<leftarrow>elems x. v\<^sup>2) / 2"

text \<open>
  Equality of Python dictionaries: the same keys with the same values, whatever the
  order of the entries.
\<close>

definition dict_eq :: "('k, 'v) dict \<Rightarrow> ('k, 'v) dict \<Rightarrow> bool" where
  "dict_eq a b \<longleftrightarrow>
     set (map fst a) = set (map fst b) \<and> (\<forall>k\<in>set (map fst a). dict_get a k = dict_get b k)"

subsection \<open>Well-formed states and chains\<close>

text \<open>
  A state is well formed for a sampler when its keys are the latent variables, each
  once, and the tensor of each variable has the event shape of that variable; the chains
  are well formed when every row has the event shape.
\<close>

definition state_ok :: "(rv, empirical) dict \<Rightarrow> state \<Rightarrow> bool" where
  "state_ok lv s \<longleftrightarrow>
     distinct (map fst s) \<and> set (map fst s) = set (map fst lv) \<and>
     list_all (\<lambda>zqz. case dict_get s (fst zqz) of
                       Inl e \<Rightarrow> False
                     | Inr x \<Rightarrow> has_shape (get_event_shape (snd zqz)) x) lv"

definition chain_ok :: "(rv, empirical) dict \<Rightarrow> bool" where
  "chain_ok lv \<longleftrightarrow>
     (\<forall>qz\<in>set (map snd lv). \<forall>row\<in>set (params qz). has_shape (get_event_shape qz) row)"

subsection \<open>Example inputs\<close>

text \<open>
  A standard normal target, \<open>log p(z) = - \<Sum> z\<^sup>2 / 2\<close> with gradient \<open>- z\<close>; a
  target whose log density is NaN everywhere; a sampler with two latent variables of
  event shape \<open>[2]\<close> at its first step, with two integrator steps, with none and with
  one; the momentum draws; and what the step with two integrator steps computes and
  leaves behind on an interpreter of the first layout.
\<close>

definition gaussian :: density where
  "gaussian =
     \<lparr>log_density = (\<lambda>z. Fin (- (\<Sum>x\<leftarrow>map snd z. \<Sum>v\<leftarrow>elems x. v * v) / 2)),
      grad_density = (\<lambda>z key. case dict_get z key of
                          Inl e \<Rightarrow> Tensor [] []
                        | Inr x \<Rightarrow> tf_scale (- 1) x)\<rparr>"

definition nan_target :: density where
  "nan_target = \<lparr>log_density = (\<lambda>z. NaN), grad_density = grad_density gaussian\<rparr>"

definition chain2 :: hmc where
  "chain2 =
     \<lparr>latent_vars =
        [(''x'', \<lparr>event_shape = [2],
                  params = [Tensor [2] [1, 0], Tensor [2] [0, 0], Tensor [2] [0, 0]]\<rparr>),
         (''y'', \<lparr>event_shape = [2],
                  params = [Tensor [2] [2, 0], Tensor [2] [0, 0], Tensor [2] [0, 0]]\<rparr>)],
      step_size = 1, n_steps = 2, t_var = 1, n_accept = 0\<rparr>"

definition chain0 :: hmc where
  "chain0 = chain2\<lparr>n_steps := 0\<rparr>"

definition chain1 :: hmc where
  "chain1 = chain2\<lparr>n_steps := 1\<rparr>"

definition draws :: "nat \<Rightarrow> real" where
  "draws i = (if i = 2 then 1 else 0)"


definition chain2_result :: update where
  "chain2_result =
     \<lparr>old_sample = [(''x'', Tensor [2] [1, 0]), (''y'', Tensor [2] [2, 0])],
      old_r_sample = [(''x'', Tensor [2] [0, 0]), (''y'', Tensor [2] [1, 0])],
      new_sample = [(''x'', Tensor [2] [1 / 2, 0]), (''y'', Tensor [2] [2, 0])],
      new_r_sample = [(''x'', Tensor [2] [- (3 / 4), 0]), (''y'', Tensor [2] [- 1, 0])],
      ratio = Fin (3 / 32),
      accept = True,
      sample = [(''x'', Tensor [2] [1 / 2, 0]), (''y'', Tensor [2] [2, 0])],
      assign_ops = [ScatterUpdate ''x'' 1 (Tensor [2] [1 / 2, 0]),
                    ScatterUpdate ''y'' 1 (Tensor [2] [2, 0]), AssignAdd 1]\<rparr>"

definition chain2_after :: hmc where
  "chain2_after =
     \<lparr>latent_vars =
        [(''x'', \<lparr>event_shape = [2],
                  params = [Tensor [2] [1, 0], Tensor [2] [1 / 2, 0], Tensor [2] [0, 0]]\<rparr>),
         (''y'', \<lparr>event_shape = [2],
                  params = [Tensor [2] [2, 0], Tensor [2] [2, 0], Tensor [2] [0, 0]]\<rparr>)],
      step_size = 1, n_steps = 2, t_var = 1, n_accept = 1\<rparr>"

text \<open>
  The same sampler with one integrator step on an interpreter of the second layout: its
  dictionary of latent variables is iterated \<open>y\<close>, \<open>x\<close>, the old sample \<open>x\<close>,
  \<open>y\<close>, and the proposal \<open>y\<close>, \<open>x\<close> again. What the step computes and
  leaves behind for the uniform number \<open>9 / 10\<close>, and for a target whose log density
  is NaN.
\<close>

definition chain1_result :: update where
  "chain1_result =
     \<lparr>old_sample = [(''y'', Tensor [2] [2, 0]), (''x'', Tensor [2] [1, 0])],
      old_r_sample = [(''y'', Tensor [2] [0, 0]), (''x'', Tensor [2] [1, 0])],
      new_sample = [(''x'', Tensor [2] [3 / 2, 0]), (''y'', Tensor [2] [1, 0])],
      new_r_sample = [(''x'', Tensor [2] [0, 0]), (''y'', Tensor [2] [- (7 / 4), 0])],
      ratio = Fin (- (5 / 32)),
      accept = False,
      sample = [(''y'', Tensor [2] [1, 0]), (''x'', Tensor [2] [2, 0])],
      assign_ops = [ScatterUpdate ''y'' 1 (Tensor [2] [1, 0]),
                    ScatterUpdate ''x'' 1 (Tensor [2] [2, 0]), AssignAdd 0]\<rparr>"

definition chain1_nan_result :: update where
  "chain1_nan_result = chain1_result\<lparr>ratio := NaN\<rparr>"

definition chain1_after :: hmc where
  "chain1_after =
     \<lparr>latent_vars =
        [(''x'', \<lparr>event_shape = [2],
                  params = [Tensor [2] [1, 0], Tensor [2] [2, 0], Tensor [2] [0, 0]]\<rparr>),
         (''y'', \<lparr>event_shape = [2],
                  params = [Tensor [2] [2, 0], Tensor [2] [1, 0], Tensor [2] [0, 0]]\<rparr>)],
      step_size = 1, n_steps = 1, t_var = 1, n_accept = 0\<rparr>"


section \<open>Lemmas\<close>

subsection \<open>Dictionaries and lists\<close>

lemma dict_get_set_same: "dict_get (dict_set d k v) k = Inr v"
  by (induction d) (auto simp: dict_get_def)

lemma dict_get_set_other: "k' \<noteq> k \<Longrightarrow> dict_get (dict_set d k v) k' = dict_get d k'"
  by (induction d) (auto simp: dict_get_def)

lemma dict_set_keys: "fst ` set (dict_set d k v) = insert k (fst ` set d)"
  by (induction d) force+

lemma dict_set_distinct: "distinct (map fst d) \<Longrightarrow> distinct (map fst (dict_set d k v))"
  by (induction d) (auto simp: dict_set_keys)

lemma dict_set_fresh: "k \<notin> fst ` set d \<Longrightarrow> dict_set d k v = d @ [(k, v)]"
  by (induction d) auto

lemma dict_get_append_fresh:
  "k \<notin> fst ` set d \<Longrightarrow> dict_get (d @ e) k = dict_get e k"
  by (induction d) (auto simp: dict_get_def)

lemma dict_set_append_hit:
  "k \<notin> fst ` set d \<Longrightarrow> dict_set (d @ (k, v) # e) k w = d @ (k, w) # e"
  by (induction d) auto

lemma dict_get_append_hit:
  "k \<notin> fst ` set pre \<Longrightarrow> dict_get (pre @ (k, r) # rest) k = Inr r"
  by (simp add: dict_get_append_fresh) (simp add: dict_get_def)

lemma dict_get_nth:
  assumes "distinct (map fst d)" "j < length d"
  shows "dict_get d (fst (d ! j)) = Inr (snd (d ! j))"
proof -
  have "d ! j \<in> set d" using assms(2) by simp
  then have "map_of d (fst (d ! j)) = Some (snd (d ! j))"
    using assms(1) by simp
  then show ?thesis by (simp add: dict_get_def)
qed

lemma dict_get_mem:
  "distinct (map fst d) \<Longrightarrow> (k, v) \<in> set d \<Longrightarrow> dict_get d k = Inr v"
  by (simp add: dict_get_def)

lemma dict_get_zip_nth:
  "distinct ks \<Longrightarrow> length vs = length ks \<Longrightarrow> j < length ks \<Longrightarrow>
   dict_get (zip ks vs) (ks ! j) = Inr (vs ! j)"
  using dict_get_nth[of "zip ks vs" j] by simp

lemma dict_get_present:
  "k \<in> set (map fst d) \<Longrightarrow> dict_get d k = Inr (the (map_of d k))"
  by (auto simp: dict_get_def map_of_eq_None_iff split: option.splits)

lemma dict_get_absent:
  "k \<notin> set (map fst d) \<Longrightarrow> dict_get d k = Inl KeyError"
  by (auto simp: dict_get_def map_of_eq_None_iff split: option.splits)

lemma dict_get_InrD: "dict_get d k = Inr v \<Longrightarrow> (k, v) \<in> set d"
  by (auto simp: dict_get_def split: option.splits dest: map_of_SomeD)

lemma dict_of_fresh:
  assumes "distinct (map fst kvs)" "set (map fst kvs) \<inter> fst ` set d = {}"
  shows "dict_of kvs d = d @ kvs"
  using assms
proof (induction kvs arbitrary: d)
  case Nil
  then show ?case by simp
next
  case (Cons a kvs)
  obtain k v where a: "a = (k, v)" by (cases a)
  have kf: "k \<notin> fst ` set d" using Cons.prems(2) a by auto
  have d: "distinct (map fst kvs)" using Cons.prems(1) by simp
  have e: "set (map fst kvs) \<inter> fst ` set (d @ [(k, v)]) = {}"
    using Cons.prems a by auto
  show ?case using Cons.IH[OF d e] by (simp add: a dict_set_fresh[OF kf])
qed

lemma enumerate_from_Cons:
  "enumerate_from i (x # xs) = (i, x) # enumerate_from (Suc i) xs"
  by (simp add: enumerate_from_def upt_rec)

lemma enumerate_from_Nil: "enumerate_from i [] = []"
  by (simp add: enumerate_from_def)

lemma zip_map_self: "zip (map f l) (map g l) = map (\<lambda>x. (f x, g x)) l"
  by (induction l) auto

subsection \<open>Iterating a dictionary\<close>

lemma map_filter_total:
  "(\<And>x. x \<in> set xs \<Longrightarrow> f x = Some (g x)) \<Longrightarrow> List.map_filter f xs = map g xs"
  by (induction xs) (simp_all add: map_filter_simps)

lemma iteritems_ok:
  assumes "layout_ok lay" "distinct (map fst d)"
  shows "iteritems lay d = map (\<lambda>k. (k, the (map_of d k))) (lay (map fst d))"
proof -
  have s: "set (lay (map fst d)) = set (map fst d)"
    using assms by (simp add: layout_ok_def)
  have "map_option (Pair k) (map_of d k) = Some (k, the (map_of d k))"
    if "k \<in> set (lay (map fst d))" for k
  proof -
    from that s have "k \<in> fst ` set d" by simp
    then obtain v where "map_of d k = Some v"
      by (metis not_Some_eq map_of_eq_None_iff)
    then show ?thesis by simp
  qed
  then show ?thesis
    unfolding iteritems_def by (rule map_filter_total)
qed

lemma iterkeys_ok:
  assumes "layout_ok lay" "distinct (map fst d)"
  shows "iterkeys lay d = lay (map fst d)"
  by (simp add: iterkeys_def iteritems_ok[OF assms] comp_def)

lemma iterkeys_distinct:
  assumes "layout_ok lay" "distinct (map fst d)"
  shows "distinct (iterkeys lay d)"
  using assms by (simp add: iterkeys_ok layout_ok_def)

lemma iterkeys_set:
  assumes "layout_ok lay" "distinct (map fst d)"
  shows "set (iterkeys lay d) = set (map fst d)"
  using assms by (simp add: iterkeys_ok layout_ok_def)

lemma iterkeys_length:
  assumes "layout_ok lay" "distinct (map fst d)"
  shows "length (iterkeys lay d) = length d"
proof -
  have "length (iterkeys lay d) = card (set (iterkeys lay d))"
    using iterkeys_distinct[OF assms] by (simp add: distinct_card)
  also have "\<dots> = card (set (map fst d))"
    by (simp only: iterkeys_set[OF assms])
  also have "\<dots> = length (map fst d)"
    using assms(2) by (rule distinct_card)
  finally show ?thesis by simp
qed

lemma iteritems_length:
  assumes "layout_ok lay" "distinct (map fst d)"
  shows "length (iteritems lay d) = length d"
  using iterkeys_length[OF assms] by (simp add: iterkeys_def)

lemma itervalues_length:
  assumes "layout_ok lay" "distinct (map fst d)"
  shows "length (itervalues lay d) = length d"
  using iterkeys_length[OF assms] by (simp add: iterkeys_def itervalues_def)

lemma iteritems_zip: "iteritems lay d = zip (iterkeys lay d) (itervalues lay d)"
  by (simp add: iterkeys_def itervalues_def zip_map_fst_snd)

lemma iteritems_distinct:
  assumes "layout_ok lay" "distinct (map fst d)"
  shows "distinct (map fst (iteritems lay d))"
  using iterkeys_distinct[OF assms] by (simp add: iterkeys_def)

lemma iteritems_set:
  assumes "layout_ok lay" "distinct (map fst d)"
  shows "set (iteritems lay d) = set d"
proof -
  have s: "set (lay (map fst d)) = fst ` set d"
    using assms by (simp add: layout_ok_def)
  show ?thesis
  proof (intro set_eqI iffI)
    fix kv assume "kv \<in> set (iteritems lay d)"
    then obtain k where k: "k \<in> fst ` set d" and kv: "kv = (k, the (map_of d k))"
      using s by (auto simp: iteritems_ok[OF assms])
    from k obtain v where "map_of d k = Some v"
      by (metis not_Some_eq map_of_eq_None_iff)
    then show "kv \<in> set d" using kv by (auto dest: map_of_SomeD)
  next
    fix kv assume m: "kv \<in> set d"
    then have "map_of d (fst kv) = Some (snd kv)" using assms(2) by simp
    moreover have "fst kv \<in> set (lay (map fst d))" using m s by simp
    ultimately show "kv \<in> set (iteritems lay d)"
      by (force simp: iteritems_ok[OF assms] image_iff)
  qed
qed

lemma itervalues_set:
  assumes "layout_ok lay" "distinct (map fst d)"
  shows "set (itervalues lay d) = set (map snd d)"
  using iteritems_set[OF assms] by (simp add: itervalues_def)

lemma dict_get_iter:
  assumes "layout_ok lay" "distinct (map fst d)" "j < length d"
  shows "dict_get d (iterkeys lay d ! j) = Inr (itervalues lay d ! j)"
proof -
  have j: "j < length (iteritems lay d)" using assms by (simp add: iteritems_length)
  then have "iteritems lay d ! j \<in> set d"
    using iteritems_set[OF assms(1,2)] nth_mem by blast
  then have "dict_get d (fst (iteritems lay d ! j)) = Inr (snd (iteritems lay d ! j))"
    using dict_get_mem[OF assms(2)] by (metis prod.collapse)
  then show ?thesis using j by (simp add: iterkeys_def itervalues_def)
qed

lemma dict_get_iteritems:
  assumes "layout_ok lay" "distinct (map fst d)"
  shows "dict_get (iteritems lay d) k = dict_get d k"
proof (cases "k \<in> set (map fst d)")
  case True
  then obtain v where v: "(k, v) \<in> set d" by auto
  then have "(k, v) \<in> set (iteritems lay d)" using iteritems_set[OF assms] by simp
  then show ?thesis
    using dict_get_mem[OF iteritems_distinct[OF assms]] dict_get_mem[OF assms(2) v] by simp
next
  case False
  then have "k \<notin> set (map fst (iteritems lay d))"
    using iterkeys_set[OF assms] by (simp add: iterkeys_def)
  then have "dict_get (iteritems lay d) k = Inl KeyError" by (rule dict_get_absent)
  moreover have "dict_get d k = Inl KeyError" using False by (rule dict_get_absent)
  ultimately show ?thesis by simp
qed

lemma sum_list_iter:
  fixes f :: "'v \<Rightarrow> real"
  assumes "layout_ok lay" "distinct (map fst d)"
  shows "sum_list (map f (itervalues lay d)) = sum_list (map f (map snd d))"
proof -
  have d1: "distinct (iteritems lay d)"
    using iteritems_distinct[OF assms] by (rule distinct_map[THEN iffD1, THEN conjunct1])
  have d2: "distinct d"
    using assms(2) by (rule distinct_map[THEN iffD1, THEN conjunct1])
  have "sum_list (map (f \<circ> snd) (iteritems lay d)) = sum (f \<circ> snd) (set (iteritems lay d))"
    using d1 by (rule sum_list_distinct_conv_sum_set)
  also have "\<dots> = sum (f \<circ> snd) (set d)"
    by (simp only: iteritems_set[OF assms])
  also have "\<dots> = sum_list (map (f \<circ> snd) d)"
    using d2 by (rule sum_list_distinct_conv_sum_set[symmetric])
  finally show ?thesis by (simp add: itervalues_def)
qed

lemma layout_ok_insertion: "layout_ok insertion_order"
  by (simp add: layout_ok_def insertion_order_def)

lemma layout_ok_reverse: "layout_ok reverse_order"
  by (simp add: layout_ok_def reverse_order_def)

subsection \<open>Loops that may raise\<close>

lemma map_err_Inr_iff:
  "map_err f xs = Inr ys \<longleftrightarrow> list_all2 (\<lambda>x y. f x = Inr y) xs ys"
proof
  show "map_err f xs = Inr ys \<Longrightarrow> list_all2 (\<lambda>x y. f x = Inr y) xs ys"
    by (induction xs arbitrary: ys) (auto split: sum.splits)
  show "list_all2 (\<lambda>x y. f x = Inr y) xs ys \<Longrightarrow> map_err f xs = Inr ys"
    by (induction xs ys rule: list_all2_induct) auto
qed

lemma map_err_cong:
  "(\<And>x. x \<in> set xs \<Longrightarrow> f x = g x) \<Longrightarrow> map_err f xs = map_err g xs"
  by (induction xs) (auto split: sum.splits)

lemma map_err_length: "map_err f xs = Inr ys \<Longrightarrow> length ys = length xs"
  by (simp add: map_err_Inr_iff list_all2_lengthD)

lemma map_err_total:
  "(\<And>x. x \<in> set xs \<Longrightarrow> f x = Inr (g x)) \<Longrightarrow> map_err f xs = Inr (map g xs)"
  by (induction xs) auto

lemma map_err_nth:
  "map_err f xs = Inr ys \<Longrightarrow> j < length xs \<Longrightarrow> f (xs ! j) = Inr (ys ! j)"
  by (simp add: map_err_Inr_iff list_all2_conv_all_nth)

lemma for_each_const:
  "for_each (\<lambda>_ _. L) xs s = (if xs = [] then Inr s else L)"
  by (induction xs arbitrary: s) (auto split: sum.splits)

lemma for_each_append:
  "for_each f (xs @ ys) s =
     (case for_each f xs s of Inl e \<Rightarrow> Inl e | Inr s' \<Rightarrow> for_each f ys s')"
  by (induction xs arbitrary: s) (auto split: sum.splits)


subsection \<open>Tensors\<close>

lemma tf_add_undo:
  assumes "tf_add a (tf_scale c g) = Inr b"
  shows "tf_add b (tf_scale (- c) g) = Inr a"
proof -
  from assms have ss: "shape a = shape g" "length (elems a) = length (elems g)"
    and b: "b = Tensor (shape a) (map2 (+) (elems a) (map (\<lambda>x. c * x) (elems g)))"
    by (auto simp: tf_add_def tf_scale_def same_shape_def split: if_splits)
  have "map2 (+) (map2 (+) (elems a) (map (\<lambda>x. c * x) (elems g))) (map (\<lambda>x. - c * x) (elems g))
      = elems a"
    using ss(2) by (intro nth_equalityI) auto
  then show ?thesis
    using ss by (cases a) (simp add: b tf_add_def tf_scale_def same_shape_def)
qed

lemma tf_add_shape:
  "tf_add a b = Inr c \<Longrightarrow> shape c = shape a \<and> length (elems c) = length (elems a)"
  by (auto simp: tf_add_def same_shape_def split: if_splits)

lemma tf_add_total:
  assumes "same_shape a b"
  shows "\<exists>c. tf_add a (tf_scale k b) = Inr c \<and> same_shape c a"
  using assms by (simp add: tf_add_def tf_scale_def same_shape_def)

lemma same_shape_sym: "same_shape a b \<Longrightarrow> same_shape b a"
  by (simp add: same_shape_def)

lemma same_shape_trans: "same_shape a b \<Longrightarrow> same_shape b c \<Longrightarrow> same_shape a c"
  by (simp add: same_shape_def)

lemma has_shape_same:
  "has_shape s x \<Longrightarrow> shape y = shape x \<and> length (elems y) = length (elems x) \<Longrightarrow> has_shape s y"
  by (simp add: has_shape_def)

lemma has_shape_same_shape: "has_shape s a \<Longrightarrow> has_shape s b \<Longrightarrow> same_shape a b"
  by (simp add: has_shape_def same_shape_def)

lemma same_shape_has_shape: "same_shape a b \<Longrightarrow> has_shape s b \<Longrightarrow> has_shape s a"
  by (simp add: has_shape_def same_shape_def)

lemma has_shape_unique: "has_shape s a \<Longrightarrow> has_shape s' b \<Longrightarrow> same_shape a b \<Longrightarrow> s = s'"
  by (simp add: has_shape_def same_shape_def)

lemma tf_cond_list:
  "(case tf_cond p a b of OneTensor x \<Rightarrow> [x] | TensorList xs \<Rightarrow> xs) = (if p then a else b)"
  by (auto simp: tf_cond_def split: list.splits)

lemma kinetic_sum:
  assumes "tf_reduce_sum (kinetic_terms lay r) = Inr k"
    and "layout_ok lay" "distinct (map fst r)"
  shows "k = kinetic_energy r"
proof -
  have e0: "(\<Sum>v\<leftarrow>xs. 0.5 * (v * v)) = (\<Sum>v\<leftarrow>xs. v\<^sup>2) / 2" for xs :: "real list"
    by (induction xs) (simp_all add: power2_eq_square add_divide_distrib)
  have e: "sum_list (elems (tf_scale (1 / 2) (tf_square x))) = (\<Sum>v\<leftarrow>elems x. v\<^sup>2) / 2" for x
    using e0[of "elems x"] by (simp add: tf_scale_def tf_square_def comp_def)
  from assms(1) have "k = (\<Sum>x\<leftarrow>kinetic_terms lay r. sum_list (elems x))"
    by (simp add: tf_reduce_sum_def split: if_splits)
  also have "\<dots> = (\<Sum>x\<leftarrow>itervalues lay r. (\<Sum>v\<leftarrow>elems x. v\<^sup>2) / 2)"
    by (simp add: kinetic_terms_def comp_def e)
  also have "\<dots> = (\<Sum>x\<leftarrow>map snd r. (\<Sum>v\<leftarrow>elems x. v\<^sup>2) / 2)"
    by (rule sum_list_iter[OF assms(2,3)])
  also have "\<dots> = kinetic_energy r"
  proof -
    have "(\<Sum>x\<leftarrow>xs. f x / 2) = (\<Sum>x\<leftarrow>xs. f x) / (2::real)"
      for f :: "tensor \<Rightarrow> real" and xs
      by (induction xs) (simp_all add: add_divide_distrib)
    then show ?thesis unfolding kinetic_energy_def .
  qed
  finally show ?thesis .
qed

lemma tf_reduce_sum_total:
  assumes "\<And>x. x \<in> set xs \<Longrightarrow> has_shape s x"
  shows "tf_reduce_sum (map (\<lambda>r. tf_scale c (tf_square r)) xs) =
     Inr (sum_list (map (\<lambda>x. sum_list (elems (tf_scale c (tf_square x)))) xs))"
proof -
  have "same_shape (tf_scale c (tf_square x)) (tf_scale c (tf_square y))"
    if "x \<in> set xs" "y \<in> set xs" for x y
    using assms[OF that(1)] assms[OF that(2)]
    by (simp add: same_shape_def has_shape_def tf_scale_def tf_square_def)
  moreover have "hd (map (\<lambda>r. tf_scale c (tf_square r)) xs) = tf_scale c (tf_square (hd xs))"
    if "xs \<noteq> []"
    using that by (simp add: hd_map)
  ultimately have "list_all (\<lambda>x. same_shape x (hd (map (\<lambda>r. tf_scale c (tf_square r)) xs)))
      (map (\<lambda>r. tf_scale c (tf_square r)) xs)"
    by (cases "xs = []") (auto simp: list_all_iff)
  then show ?thesis
    by (simp add: tf_reduce_sum_def comp_def)
qed

lemma tf_reduce_sum_same_shape:
  assumes "tf_reduce_sum (map (\<lambda>r. tf_scale c (tf_square r)) xs) = Inr k"
    and "x \<in> set xs" "y \<in> set xs"
  shows "same_shape x y"
proof -
  let ?f = "\<lambda>r. tf_scale c (tf_square r)"
  from assms(1) have a: "list_all (\<lambda>x. same_shape x (hd (map ?f xs))) (map ?f xs)"
    by (simp add: tf_reduce_sum_def split: if_splits)
  have "same_shape (?f x) (hd (map ?f xs))" "same_shape (?f y) (hd (map ?f xs))"
    using a assms(2,3) by (auto simp: list_all_iff)
  then have "same_shape (?f x) (?f y)"
    using same_shape_sym same_shape_trans by blast
  then show ?thesis
    by (simp add: same_shape_def tf_scale_def tf_square_def)
qed

subsection \<open>The leapfrog step as two maps\<close>

lemma body1_step:
  assumes "list_get G i = Inr (grad_density lj z k)"
  shows "leapfrog_body1 z r h G (i, k) (zn, rn) =
     (case kick_drift z r h lj k of Inl e \<Rightarrow> Inl e
      | Inr p \<Rightarrow> Inr (dict_set zn k (fst p), dict_set rn k (snd p)))"
  using assms
  by (simp add: leapfrog_body1_def kick_drift_def dict_get_set_same split: sum.splits)

lemma loop1_maps:
  assumes "distinct ks" "set ks \<inter> fst ` set zn = {}" "set ks \<inter> fst ` set rn = {}"
    and "\<forall>j<length ks. list_get G (i0 + j) = Inr (grad_density lj z (ks ! j))"
  shows "for_each (leapfrog_body1 z r h G) (enumerate_from i0 ks) (zn, rn) =
     (case map_err (kick_drift z r h lj) ks of Inl e \<Rightarrow> Inl e
      | Inr ps \<Rightarrow> Inr (zn @ zip ks (map fst ps), rn @ zip ks (map snd ps)))"
  using assms
proof (induction ks arbitrary: i0 zn rn)
  case Nil
  then show ?case by (simp add: enumerate_from_Nil)
next
  case (Cons k ks)
  have g0: "list_get G i0 = Inr (grad_density lj z k)"
    using Cons.prems(4) by force
  have gs: "\<forall>j<length ks. list_get G (Suc i0 + j) = Inr (grad_density lj z (ks ! j))"
    using Cons.prems(4) by force
  have kz: "k \<notin> fst ` set zn" and kr: "k \<notin> fst ` set rn"
    using Cons.prems(2,3) by auto
  show ?case
  proof (cases "kick_drift z r h lj k")
    case (Inl e)
    then show ?thesis
      by (simp add: enumerate_from_Cons body1_step[OF g0])
  next
    case (Inr p)
    have d: "distinct ks" using Cons.prems(1) by simp
    have a: "set ks \<inter> fst ` set (zn @ [(k, fst p)]) = {}"
      using Cons.prems(1,2) by auto
    have b: "set ks \<inter> fst ` set (rn @ [(k, snd p)]) = {}"
      using Cons.prems(1,3) by auto
    show ?thesis
      using Cons.IH[OF d a b gs] Inr
      by (simp add: enumerate_from_Cons body1_step[OF g0] dict_set_fresh[OF kz]
          dict_set_fresh[OF kr] split: sum.splits)
  qed
qed

lemma body2_step:
  assumes "list_get G i = Inr g" "k \<notin> fst ` set pre"
  shows "leapfrog_body2 h G (i, k) (pre @ (k, r) # rest) =
     (case kick h (r, g) of Inl e \<Rightarrow> Inl e
      | Inr r' \<Rightarrow> Inr (pre @ (k, r') # rest))"
  using assms
  by (simp add: leapfrog_body2_def kick_def dict_get_append_hit dict_set_append_hit
      split: sum.splits)

lemma loop2_maps:
  assumes "distinct ks" "set ks \<inter> fst ` set pre = {}" "length rs = length ks"
    and "length gs = length ks"
    and "\<forall>j<length ks. list_get G (i0 + j) = Inr (gs ! j)"
  shows "for_each (leapfrog_body2 h G) (enumerate_from i0 ks) (pre @ zip ks rs) =
     (case map_err (kick h) (zip rs gs) of Inl e \<Rightarrow> Inl e
      | Inr rs' \<Rightarrow> Inr (pre @ zip ks rs'))"
  using assms
proof (induction ks arbitrary: i0 pre rs gs)
  case Nil
  then show ?case by (simp add: enumerate_from_Nil)
next
  case (Cons k ks)
  obtain r rs0 where rs: "rs = r # rs0" "length rs0 = length ks"
    using Cons.prems(3) by (cases rs) auto
  obtain g gs0 where gs: "gs = g # gs0" "length gs0 = length ks"
    using Cons.prems(4) by (cases gs) auto
  have g0: "list_get G i0 = Inr g"
    using Cons.prems(5) gs by force
  have gr: "\<forall>j<length ks. list_get G (Suc i0 + j) = Inr (gs0 ! j)"
    using Cons.prems(5) gs by force
  have kp: "k \<notin> fst ` set pre"
    using Cons.prems(2) by auto
  show ?case
  proof (cases "kick h (r, g)")
    case (Inl e)
    then show ?thesis
      by (simp add: rs gs enumerate_from_Cons body2_step[OF g0 kp])
  next
    case (Inr r')
    have d: "distinct ks" using Cons.prems(1) by simp
    have a: "set ks \<inter> fst ` set (pre @ [(k, r')]) = {}"
      using Cons.prems(1,2) by auto
    show ?thesis
      using Cons.IH[OF d a rs(2) gs(2) gr] Inr
      by (simp add: rs gs enumerate_from_Cons body2_step[OF g0 kp] split: sum.splits)
  qed
qed

lemma tf_gradients_get:
  "j < length (iterkeys lay z) \<Longrightarrow>
   list_get (tf_gradients lay lj z) j = Inr (grad_density lj z (iterkeys lay z ! j))"
  by (simp add: list_get_def tf_gradients_def)

lemma tf_gradients_length: "length (tf_gradients lay lj z) = length (iterkeys lay z)"
  by (simp add: tf_gradients_def)

lemma leapfrog_eq_maps:
  assumes ok: "layout_ok lay" and dz: "distinct (map fst z)"
  shows "leapfrog lay z r h lj = leapfrog_maps lay z r h lj"
proof -
  let ?ks = "iterkeys lay z"
  have d: "distinct ?ks" by (rule iterkeys_distinct[OF ok dz])
  have g1: "\<forall>j<length ?ks. list_get (tf_gradients lay lj z) (0 + j)
      = Inr (grad_density lj z (?ks ! j))"
    by (simp add: tf_gradients_get)
  have l1: "for_each (leapfrog_body1 z r h (tf_gradients lay lj z))
      (enumerate_from 0 ?ks) ([], []) =
     (case map_err (kick_drift z r h lj) ?ks of Inl e \<Rightarrow> Inl e
      | Inr ps \<Rightarrow> Inr ([] @ zip ?ks (map fst ps), [] @ zip ?ks (map snd ps)))"
    by (rule loop1_maps[OF d _ _ g1]) simp_all
  show ?thesis
  proof (cases "map_err (kick_drift z r h lj) ?ks")
    case (Inl e)
    then show ?thesis using l1 by (simp add: leapfrog_def leapfrog_maps_def)
  next
    case (Inr ps)
    have len: "length ps = length ?ks" using Inr by (rule map_err_length)
    let ?zn = "zip ?ks (map fst ps)"
    let ?G = "tf_gradients lay lj ?zn"
    have kz: "map fst ?zn = ?ks" using len by simp
    have dn: "distinct (map fst ?zn)" using d kz by simp
    have lg: "length ?G = length ?ks"
      using iterkeys_length[OF ok dn] len by (simp add: tf_gradients_length)
    have g2: "\<forall>j<length ?ks. list_get ?G (0 + j) = Inr (?G ! j)"
      using lg by (simp add: list_get_def)
    have l2: "for_each (leapfrog_body2 h ?G) (enumerate_from 0 ?ks) ([] @ zip ?ks (map snd ps)) =
       (case map_err (kick h) (zip (map snd ps) ?G) of Inl e \<Rightarrow> Inl e
        | Inr rs' \<Rightarrow> Inr ([] @ zip ?ks rs'))"
      by (rule loop2_maps[OF d _ _ lg g2]) (simp_all add: len)
    show ?thesis
      using l1 l2 Inr by (simp add: leapfrog_def leapfrog_maps_def split: sum.splits)
  qed
qed

lemma leapfrog_Inr_iff:
  assumes ok: "layout_ok lay" and dz: "distinct (map fst z)"
  shows "leapfrog lay z r h lj = Inr (z', r') \<longleftrightarrow>
     (\<exists>ps rs. length ps = length z \<and> length rs = length z \<and>
        z' = zip (iterkeys lay z) (map fst ps) \<and> r' = zip (iterkeys lay z) rs \<and>
        (\<forall>j<length z. kick_drift z r h lj (iterkeys lay z ! j) = Inr (ps ! j)) \<and>
        (\<forall>j<length z. kick h (snd (ps ! j), grad_density lj z' (iterkeys lay z' ! j))
                         = Inr (rs ! j)))"
  (is "?L \<longleftrightarrow> ?R")
proof
  let ?ks = "iterkeys lay z"
  have lk: "length ?ks = length z" by (rule iterkeys_length[OF ok dz])
  have d: "distinct ?ks" by (rule iterkeys_distinct[OF ok dz])
  assume ?L
  then obtain ps rs where ps: "map_err (kick_drift z r h lj) ?ks = Inr ps"
    and rs: "map_err (kick h) (zip (map snd ps) (tf_gradients lay lj (zip ?ks (map fst ps))))
               = Inr rs"
    and z': "z' = zip ?ks (map fst ps)" and r': "r' = zip ?ks rs"
    by (auto simp: leapfrog_eq_maps[OF ok dz] leapfrog_maps_def split: sum.splits)
  have lp: "length ps = length z"
    using map_err_length[OF ps] lk by simp
  have dn: "distinct (map fst z')" using d lp lk by (simp add: z')
  have lz': "length z' = length z" using lp lk by (simp add: z')
  have lg: "length (tf_gradients lay lj z') = length z"
    using iterkeys_length[OF ok dn] lz' by (simp add: tf_gradients_length)
  have lr: "length rs = length z"
    using map_err_length[OF rs] lp lg by (simp add: z')
  have a: "\<forall>j<length z. kick_drift z r h lj (?ks ! j) = Inr (ps ! j)"
    using map_err_nth[OF ps] lk by simp
  have b: "\<forall>j<length z. kick h (snd (ps ! j), grad_density lj z' (iterkeys lay z' ! j))
      = Inr (rs ! j)"
  proof (intro allI impI)
    fix j assume j: "j < length z"
    have "kick h (zip (map snd ps) (tf_gradients lay lj z') ! j) = Inr (rs ! j)"
      using map_err_nth[OF rs, of j] j lp lg by (simp add: z')
    moreover have "tf_gradients lay lj z' ! j = grad_density lj z' (iterkeys lay z' ! j)"
      using j lg by (simp add: tf_gradients_def)
    ultimately show "kick h (snd (ps ! j), grad_density lj z' (iterkeys lay z' ! j))
        = Inr (rs ! j)"
      using j lp lg by simp
  qed
  show ?R using lp lr z' r' a b by blast
next
  let ?ks = "iterkeys lay z"
  have lk: "length ?ks = length z" by (rule iterkeys_length[OF ok dz])
  have d: "distinct ?ks" by (rule iterkeys_distinct[OF ok dz])
  assume ?R
  then obtain ps rs where lp: "length ps = length z" and lr: "length rs = length z"
    and z': "z' = zip ?ks (map fst ps)" and r': "r' = zip ?ks rs"
    and a: "\<forall>j<length z. kick_drift z r h lj (?ks ! j) = Inr (ps ! j)"
    and b: "\<forall>j<length z. kick h (snd (ps ! j), grad_density lj z' (iterkeys lay z' ! j))
              = Inr (rs ! j)"
    by blast
  have dn: "distinct (map fst z')" using d lp lk by (simp add: z')
  have lz': "length z' = length z" using lp lk by (simp add: z')
  have lg: "length (tf_gradients lay lj z') = length z"
    using iterkeys_length[OF ok dn] lz' by (simp add: tf_gradients_length)
  have ps: "map_err (kick_drift z r h lj) ?ks = Inr ps"
    using a lp lk by (simp add: map_err_Inr_iff list_all2_conv_all_nth)
  have "kick h (zip (map snd ps) (tf_gradients lay lj z') ! j) = Inr (rs ! j)"
    if j: "j < length z" for j
  proof -
    have "tf_gradients lay lj z' ! j = grad_density lj z' (iterkeys lay z' ! j)"
      using j lg by (simp add: tf_gradients_def)
    then show ?thesis using b j lp lg by simp
  qed
  then have rs: "map_err (kick h) (zip (map snd ps) (tf_gradients lay lj z')) = Inr rs"
    using lp lr lg by (simp add: map_err_Inr_iff list_all2_conv_all_nth)
  show ?L
    using ps rs by (simp add: leapfrog_eq_maps[OF ok dz] leapfrog_maps_def z' r')
qed

lemma kick_drift_InrD:
  assumes "kick_drift z r h lj k = Inr p"
  shows "\<exists>zv rv. dict_get z k = Inr zv \<and> dict_get r k = Inr rv \<and>
     tf_add rv (tf_scale (0.5 * h) (grad_density lj z k)) = Inr (snd p) \<and>
     tf_add zv (tf_scale h (snd p)) = Inr (fst p)"
  using assms by (auto simp: kick_drift_def split: sum.splits)

lemma kick_drift_InrI:
  assumes "dict_get z k = Inr zv" "dict_get r k = Inr rv"
    "tf_add rv (tf_scale (0.5 * h) (grad_density lj z k)) = Inr rk"
    "tf_add zv (tf_scale h rk) = Inr zk"
  shows "kick_drift z r h lj k = Inr (zk, rk)"
  using assms by (simp add: kick_drift_def)

text \<open>
  What one step does for the key at position \<open>j\<close> of the iteration of the old
  position: the half step and the full step use the gradient of this key, and the second
  half step uses the gradient of the key at position \<open>j\<close> of the iteration of the
  new position.
\<close>

lemma leapfrog_by_key:
  assumes l: "leapfrog lay z r h lj = Inr (z', r')"
    and ok: "layout_ok lay" and dz: "distinct (map fst z)" and j: "j < length z"
  shows "\<exists>zv rv rh zv' rv'.
     dict_get z (iterkeys lay z ! j) = Inr zv \<and> dict_get r (iterkeys lay z ! j) = Inr rv \<and>
     tf_add rv (tf_scale (h / 2) (grad_density lj z (iterkeys lay z ! j))) = Inr rh \<and>
     tf_add zv (tf_scale h rh) = Inr zv' \<and>
     tf_add rh (tf_scale (h / 2) (grad_density lj z' (iterkeys lay z' ! j))) = Inr rv' \<and>
     dict_get z' (iterkeys lay z ! j) = Inr zv' \<and> dict_get r' (iterkeys lay z ! j) = Inr rv'"
proof -
  let ?ks = "iterkeys lay z"
  have lk: "length ?ks = length z" by (rule iterkeys_length[OF ok dz])
  have d: "distinct ?ks" by (rule iterkeys_distinct[OF ok dz])
  from l obtain ps rs where lp: "length ps = length z" and lr: "length rs = length z"
    and z': "z' = zip ?ks (map fst ps)" and r': "r' = zip ?ks rs"
    and a: "\<forall>j<length z. kick_drift z r h lj (?ks ! j) = Inr (ps ! j)"
    and b: "\<forall>j<length z. kick h (snd (ps ! j), grad_density lj z' (iterkeys lay z' ! j))
              = Inr (rs ! j)"
    unfolding leapfrog_Inr_iff[OF ok dz] by blast
  from a j have "kick_drift z r h lj (?ks ! j) = Inr (ps ! j)" by simp
  from kick_drift_InrD[OF this] obtain zv rv where
    1: "dict_get z (?ks ! j) = Inr zv" and 2: "dict_get r (?ks ! j) = Inr rv"
    and 3: "tf_add rv (tf_scale (0.5 * h) (grad_density lj z (?ks ! j))) = Inr (snd (ps ! j))"
    and 4: "tf_add zv (tf_scale h (snd (ps ! j))) = Inr (fst (ps ! j))"
    by blast
  from b j have 5: "tf_add (snd (ps ! j))
      (tf_scale (0.5 * h) (grad_density lj z' (iterkeys lay z' ! j))) = Inr (rs ! j)"
    by (simp add: kick_def)
  have 6: "dict_get z' (?ks ! j) = Inr (fst (ps ! j))"
    using dict_get_zip_nth[OF d, of "map fst ps" j] lp lk j by (simp add: z')
  have 7: "dict_get r' (?ks ! j) = Inr (rs ! j)"
    using dict_get_zip_nth[OF d, of rs j] lr lk j by (simp add: r')
  show ?thesis
    using 1 2 3 4 5 6 7 by (intro exI[of _ zv] exI[of _ rv] exI[of _ "snd (ps ! j)"]
        exI[of _ "fst (ps ! j)"] exI[of _ "rs ! j"]) simp
qed

lemma leapfrog_keys:
  assumes "leapfrog lay z r h lj = Inr (z', r')" "layout_ok lay" "distinct (map fst z)"
  shows "map fst z' = iterkeys lay z" and "map fst r' = iterkeys lay z"
    and "distinct (map fst z')" and "distinct (map fst r')"
    and "set (map fst z') = set (map fst z)" and "set (map fst r') = set (map fst z)"
proof -
  let ?ks = "iterkeys lay z"
  have lk: "length ?ks = length z" by (rule iterkeys_length[OF assms(2,3)])
  have d: "distinct ?ks" by (rule iterkeys_distinct[OF assms(2,3)])
  from assms(1) have "\<exists>(ps :: (tensor \<times> tensor) list) rs.
      length ps = length z \<and> length rs = length z \<and>
      z' = zip ?ks (map fst ps) \<and> r' = zip ?ks rs"
    unfolding leapfrog_Inr_iff[OF assms(2,3)] by blast
  then obtain ps :: "(tensor \<times> tensor) list" and rs where lp: "length ps = length z" and lr: "length rs = length z"
    and z': "z' = zip ?ks (map fst ps)" and r': "r' = zip ?ks rs"
    by blast
  show 1: "map fst z' = ?ks" using lp lk by (simp add: z')
  show 2: "map fst r' = ?ks" using lr lk by (simp add: r')
  show "distinct (map fst z')" "distinct (map fst r')" using 1 2 d by simp_all
  show "set (map fst z') = set (map fst z)" "set (map fst r') = set (map fst z)"
    using 1 2 iterkeys_set[OF assms(2,3)] by simp_all
qed

lemma leapfrog_shapes:
  assumes l: "leapfrog lay z r h lj = Inr (z', r')"
    and ok: "layout_ok lay" and dz: "distinct (map fst z)" and k: "k \<in> set (map fst z)"
  shows "\<exists>zv rv zv' rv'. dict_get z k = Inr zv \<and> dict_get r k = Inr rv \<and>
     dict_get z' k = Inr zv' \<and> dict_get r' k = Inr rv' \<and>
     shape zv' = shape zv \<and> length (elems zv') = length (elems zv) \<and>
     shape rv' = shape rv \<and> length (elems rv') = length (elems rv)"
proof -
  have "k \<in> set (iterkeys lay z)" using k iterkeys_set[OF ok dz] by simp
  then obtain j where j: "j < length z" and kj: "iterkeys lay z ! j = k"
    using iterkeys_length[OF ok dz] by (metis in_set_conv_nth)
  from leapfrog_by_key[OF l ok dz j] obtain zv rv rh zv' rv' where
    1: "dict_get z k = Inr zv" "dict_get r k = Inr rv"
    and 2: "tf_add rv (tf_scale (h / 2) (grad_density lj z k)) = Inr rh"
    and 3: "tf_add zv (tf_scale h rh) = Inr zv'"
    and 4: "tf_add rh (tf_scale (h / 2) (grad_density lj z' (iterkeys lay z' ! j))) = Inr rv'"
    and 5: "dict_get z' k = Inr zv'" "dict_get r' k = Inr rv'"
    unfolding kj by blast
  show ?thesis
    using 1 5 tf_add_shape[OF 2] tf_add_shape[OF 3] tf_add_shape[OF 4] by simp
qed


lemma dict_get_in_values:
  assumes "k \<in> set (map fst d)"
  shows "\<exists>v. dict_get d k = Inr v \<and> v \<in> set (map snd d)"
proof -
  have "dict_get d k = Inr (the (map_of d k))" using assms by (rule dict_get_present)
  moreover from this have "(k, the (map_of d k)) \<in> set d" by (rule dict_get_InrD)
  then have "the (map_of d k) \<in> set (map snd d)" by force
  ultimately show ?thesis by blast
qed

lemma leapfrog_total:
  assumes ok: "layout_ok lay" and dz: "distinct (map fst z)"
    and kr: "set (map fst z) \<subseteq> set (map fst r)"
    and sz: "\<forall>x\<in>set (map snd z). has_shape s x"
    and sr: "\<forall>x\<in>set (map snd r). has_shape s x"
    and g: "\<forall>z' key x. dict_get z' key = Inr x \<longrightarrow> same_shape (grad_density lj z' key) x"
  shows "\<exists>z' r'. leapfrog lay z r h lj = Inr (z', r')"
proof -
  let ?ks = "iterkeys lay z"
  let ?n = "length z"
  have lk: "length ?ks = ?n" by (rule iterkeys_length[OF ok dz])
  have d: "distinct ?ks" by (rule iterkeys_distinct[OF ok dz])
  have step: "\<exists>p. kick_drift z r h lj (?ks ! j) = Inr p \<and>
      has_shape s (fst p) \<and> has_shape s (snd p)"
    if j: "j < ?n" for j
  proof -
    have kin: "?ks ! j \<in> set (map fst z)"
      using j lk iterkeys_set[OF ok dz] nth_mem by metis
    from dict_get_in_values[OF kin] obtain zv where
      1: "dict_get z (?ks ! j) = Inr zv" and hz: "has_shape s zv" using sz by blast
    from kin kr have "?ks ! j \<in> set (map fst r)" by blast
    from dict_get_in_values[OF this] obtain rv where
      2: "dict_get r (?ks ! j) = Inr rv" and hr: "has_shape s rv" using sr by blast
    have "same_shape (grad_density lj z (?ks ! j)) zv" using g 1 by blast
    then have "has_shape s (grad_density lj z (?ks ! j))"
      using hz by (rule same_shape_has_shape)
    then have "same_shape rv (grad_density lj z (?ks ! j))"
      using hr has_shape_same_shape by blast
    from tf_add_total[OF this, of "0.5 * h"] obtain rh where
      3: "tf_add rv (tf_scale (0.5 * h) (grad_density lj z (?ks ! j))) = Inr rh"
      and rh: "same_shape rh rv" by blast
    have hrh: "has_shape s rh" using rh hr by (rule same_shape_has_shape)
    have "same_shape zv rh" using hz hrh by (rule has_shape_same_shape)
    from tf_add_total[OF this, of h] obtain zk where
      4: "tf_add zv (tf_scale h rh) = Inr zk" and zz: "same_shape zk zv" by blast
    have "has_shape s zk" using zz hz by (rule same_shape_has_shape)
    then show ?thesis using kick_drift_InrI[OF 1 2 3 4] hrh by simp
  qed
  define ps where "ps = map (\<lambda>key. projr (kick_drift z r h lj key)) ?ks"
  have lp: "length ps = ?n" by (simp add: ps_def lk)
  have a: "kick_drift z r h lj (?ks ! j) = Inr (ps ! j) \<and>
      has_shape s (fst (ps ! j)) \<and> has_shape s (snd (ps ! j))"
    if j: "j < ?n" for j
    using step[OF j] j lk by (auto simp: ps_def)
  let ?z' = "zip ?ks (map fst ps)"
  let ?ks' = "iterkeys lay ?z'"
  have kz': "map fst ?z' = ?ks" using lp lk by simp
  have dz': "distinct (map fst ?z')" using d kz' by simp
  have lz': "length ?z' = ?n" using lp lk by simp
  have lk': "length ?ks' = ?n" using iterkeys_length[OF ok dz'] lz' by simp
  have vz': "has_shape s x" if "x \<in> set (map snd ?z')" for x
  proof -
    from that have "x \<in> set (map fst ps)" using lp lk by simp
    then obtain j where "j < ?n" "x = fst (ps ! j)"
      using lp by (auto simp: in_set_conv_nth)
    then show ?thesis using a by blast
  qed
  have step2: "\<exists>x. kick h (snd (ps ! j), grad_density lj ?z' (?ks' ! j)) = Inr x"
    if j: "j < ?n" for j
  proof -
    have "?ks' ! j \<in> set (map fst ?z')"
      using j lk' iterkeys_set[OF ok dz'] nth_mem by metis
    from dict_get_in_values[OF this] obtain x where
      1: "dict_get ?z' (?ks' ! j) = Inr x" and hx: "has_shape s x" using vz' by blast
    have "same_shape (grad_density lj ?z' (?ks' ! j)) x" using g 1 by blast
    then have "has_shape s (grad_density lj ?z' (?ks' ! j))"
      using hx by (rule same_shape_has_shape)
    moreover have "has_shape s (snd (ps ! j))" using a[OF j] by blast
    ultimately have "same_shape (snd (ps ! j)) (grad_density lj ?z' (?ks' ! j))"
      using has_shape_same_shape by blast
    from tf_add_total[OF this, of "0.5 * h"] show ?thesis
      by (auto simp: kick_def)
  qed
  define rs where
    "rs = map (\<lambda>j. projr (kick h (snd (ps ! j), grad_density lj ?z' (?ks' ! j)))) [0..<?n]"
  have lrs: "length rs = ?n" by (simp add: rs_def)
  have b: "kick h (snd (ps ! j), grad_density lj ?z' (?ks' ! j)) = Inr (rs ! j)"
    if j: "j < ?n" for j
    using step2[OF j] j by (auto simp: rs_def)
  have "leapfrog lay z r h lj = Inr (?z', zip ?ks rs)"
    unfolding leapfrog_Inr_iff[OF ok dz]
  proof (intro exI conjI)
    show "length ps = ?n" by (rule lp)
    show "length rs = ?n" by (rule lrs)
    show "?z' = zip ?ks (map fst ps)" by simp
    show "zip ?ks rs = zip ?ks rs" by simp
    show "\<forall>j<?n. kick_drift z r h lj (?ks ! j) = Inr (ps ! j)" using a by blast
    show "\<forall>j<?n. kick h (snd (ps ! j), grad_density lj ?z' (?ks' ! j)) = Inr (rs ! j)"
      using b by blast
  qed
  then show ?thesis by blast
qed

text \<open>
  When the new position is iterated in the order of the old one, every key gets its own
  gradient in the second half step.
\<close>

lemma leapfrog_when_orders_agree:
  assumes l: "leapfrog lay z r h lj = Inr (z', r')"
    and ok: "layout_ok lay" and dz: "distinct (map fst z)"
    and agree: "iterkeys lay z' = iterkeys lay z"
    and k: "k \<in> set (map fst z)"
  shows "\<exists>zv rv rh zv' rv'.
     dict_get z k = Inr zv \<and> dict_get r k = Inr rv \<and>
     tf_add rv (tf_scale (h / 2) (grad_density lj z k)) = Inr rh \<and>
     tf_add zv (tf_scale h rh) = Inr zv' \<and>
     tf_add rh (tf_scale (h / 2) (grad_density lj z' k)) = Inr rv' \<and>
     dict_get z' k = Inr zv' \<and> dict_get r' k = Inr rv'"
proof -
  have "k \<in> set (iterkeys lay z)" using k iterkeys_set[OF ok dz] by simp
  then obtain j where j: "j < length z" and kj: "iterkeys lay z ! j = k"
    using iterkeys_length[OF ok dz] by (metis in_set_conv_nth)
  show ?thesis
    using leapfrog_by_key[OF l ok dz j] unfolding agree kj .
qed


subsection \<open>The parts of \<^const>\<open>build_update\<close>\<close>

lemma read_loop:
  assumes "distinct (map fst lv)" "set (map fst lv) \<inter> fst ` set acc = {}"
  shows "for_each (read_old_sample t) lv acc =
     (case map_err (\<lambda>zqz. tf_gather (params (snd zqz)) (max (t - 1) 0)) lv of
        Inl e \<Rightarrow> Inl e
      | Inr xs \<Rightarrow> Inr (acc @ zip (map fst lv) xs))"
  using assms
proof (induction lv arbitrary: acc)
  case Nil
  then show ?case by simp
next
  case (Cons a lv)
  obtain z qz where a: "a = (z, qz)" by (cases a)
  have zf: "z \<notin> fst ` set acc" using Cons.prems(2) a by auto
  show ?case
  proof (cases "tf_gather (params qz) (max (t - 1) 0)")
    case (Inl e)
    then show ?thesis by (simp add: a read_old_sample_def)
  next
    case (Inr x)
    have d: "distinct (map fst lv)" using Cons.prems(1) by simp
    have e: "set (map fst lv) \<inter> fst ` set (acc @ [(z, x)]) = {}"
      using Cons.prems a by auto
    show ?thesis
      using Cons.IH[OF d e] Inr
      by (simp add: a read_old_sample_def dict_set_fresh[OF zf] split: sum.splits)
  qed
qed

lemma momentum_loop:
  assumes "distinct (map fst lv)" "set (map fst lv) \<inter> fst ` set acc = {}"
  shows "sample_momentum gauss lv c acc = acc @ zip (map fst lv) (momentum_draws gauss lv c)"
  using assms
proof (induction lv arbitrary: acc c)
  case Nil
  then show ?case by simp
next
  case (Cons a lv)
  obtain z qz where a: "a = (z, qz)" by (cases a)
  obtain x c' where n: "normal_sample (get_event_shape qz) gauss c = (x, c')"
    by (cases "normal_sample (get_event_shape qz) gauss c")
  have zf: "z \<notin> fst ` set acc" using Cons.prems(2) a by auto
  have d: "distinct (map fst lv)" using Cons.prems(1) by simp
  have e: "set (map fst lv) \<inter> fst ` set (acc @ [(z, x)]) = {}"
    using Cons.prems a by auto
  show ?case
    using Cons.IH[OF d e, of c'] by (simp add: a n dict_set_fresh[OF zf])
qed

lemma momentum_draws_length: "length (momentum_draws gauss lv c) = length lv"
  by (induction lv arbitrary: c) auto

lemma momentum_draws_shape:
  "list_all2 (\<lambda>zqz x. has_shape (get_event_shape (snd zqz)) x) lv (momentum_draws gauss lv c)"
  by (induction lv arbitrary: c)
     (auto simp: normal_sample_def has_shape_def)

lemma scatter_op_step:
  "scatter_op t smp (z, qz) ops =
     (case dict_get smp z of Inl e \<Rightarrow> Inl e | Inr x \<Rightarrow> Inr (ops @ [ScatterUpdate z t x]))"
  by (simp add: scatter_op_def)

lemma scatter_loop:
  "for_each (scatter_op t smp) lv ops =
     (case map_err (\<lambda>zqz. dict_get smp (fst zqz)) lv of
        Inl e \<Rightarrow> Inl e
      | Inr xs \<Rightarrow> Inr (ops @ map2 (\<lambda>zqz x. ScatterUpdate (fst zqz) t x) lv xs))"
proof (induction lv arbitrary: ops)
  case Nil
  then show ?case by simp
next
  case (Cons a lv)
  obtain z qz where a: "a = (z, qz)" by (cases a)
  show ?case
    by (cases "dict_get smp z") (auto simp: a scatter_op_step Cons.IH split: sum.splits)
qed

lemma scatter_total:
  assumes "set (map fst lv) \<subseteq> set (map fst smp)"
  shows "\<exists>ops. for_each (scatter_op t smp) lv [] = Inr ops"
proof -
  have "map_err (\<lambda>zqz. dict_get smp (fst zqz)) lv
      = Inr (map (\<lambda>zqz. the (map_of smp (fst zqz))) lv)"
  proof (rule map_err_total)
    fix zqz :: "rv \<times> empirical" assume "zqz \<in> set lv"
    then have "fst zqz \<in> set (map fst smp)" using assms by auto
    then show "dict_get smp (fst zqz) = Inr (the (map_of smp (fst zqz)))"
      by (rule dict_get_present)
  qed
  then show ?thesis by (simp add: scatter_loop)
qed

lemma build_update_raw:
  assumes "build_update lay self lj gauss u = Inr res"
  shows "\<exists>k_old k_new ops.
      for_each (read_old_sample (t_var self)) (iteritems lay (latent_vars self)) []
        = Inr (old_sample res) \<and>
      old_r_sample res = sample_momentum gauss (iteritems lay (latent_vars self)) 0 [] \<and>
      for_each (\<lambda>_ _. leapfrog lay (old_sample res) (old_r_sample res) (step_size self) lj)
        (py_range (n_steps self)) (old_sample res, old_r_sample res)
        = Inr (new_sample res, new_r_sample res) \<and>
      tf_reduce_sum (kinetic_terms lay (old_r_sample res)) = Inr k_old \<and>
      tf_reduce_sum (kinetic_terms lay (new_r_sample res)) = Inr k_new \<and>
      ratio res = fsub (fadd (fsub (Fin k_old) (Fin k_new)) (log_density lj (new_sample res)))
                    (log_density lj (old_sample res)) \<and>
      accept res = fless (tf_log u) (ratio res) \<and>
      sample res = dict_of (zip (iterkeys lay (new_sample res))
                     (if accept res then itervalues lay (new_sample res)
                      else itervalues lay (old_sample res))) [] \<and>
      for_each (scatter_op (t_var self) (sample res)) (iteritems lay (latent_vars self)) []
        = Inr ops \<and>
      assign_ops res = ops @ [AssignAdd (tf_select (accept res) 1 0)]"
  using assms unfolding build_update_def Let_def tf_cond_list
  by (auto split: sum.splits prod.splits)

lemma build_update_old:
  assumes b: "build_update lay self lj gauss u = Inr res"
    and ok: "layout_ok lay" and d: "distinct (map fst (latent_vars self))"
  shows "old_sample res =
           map (\<lambda>zqz. (fst zqz, params (snd zqz) ! nat (max (t_var self - 1) 0)))
             (iteritems lay (latent_vars self))"
    and "map fst (old_sample res) = iterkeys lay (latent_vars self)"
    and "\<forall>zqz\<in>set (latent_vars self).
           max (t_var self - 1) 0 < int (length (params (snd zqz))) \<and>
           dict_get (old_sample res) (fst zqz) =
             Inr (params (snd zqz) ! nat (max (t_var self - 1) 0))"
proof -
  let ?lv = "latent_vars self"
  let ?it = "iteritems lay ?lv"
  let ?i = "max (t_var self - 1) 0"
  let ?g = "\<lambda>zqz. tf_gather (params (snd zqz)) ?i"
  have di: "distinct (map fst ?it)" by (rule iteritems_distinct[OF ok d])
  from build_update_raw[OF b]
  have "for_each (read_old_sample (t_var self)) ?it [] = Inr (old_sample res)" by blast
  moreover have "for_each (read_old_sample (t_var self)) ?it [] =
     (case map_err ?g ?it of Inl e \<Rightarrow> Inl e | Inr xs \<Rightarrow> Inr ([] @ zip (map fst ?it) xs))"
    using di by (intro read_loop) simp_all
  ultimately obtain xs where xs: "map_err ?g ?it = Inr xs"
    and o: "old_sample res = zip (map fst ?it) xs"
    by (auto split: sum.splits)
  have l: "length xs = length ?it" by (rule map_err_length[OF xs])
  have gj: "?g (?it ! j) = Inr (xs ! j)" if "j < length ?it" for j
    using map_err_nth[OF xs that] .
  have inr: "?i < int (length (params (snd (?it ! j)))) \<and>
      xs ! j = params (snd (?it ! j)) ! nat ?i" if "j < length ?it" for j
    using gj[OF that] by (auto simp: tf_gather_def split: if_splits)
  show e: "old_sample res = map (\<lambda>zqz. (fst zqz, params (snd zqz) ! nat ?i)) ?it"
    unfolding o using l inr by (intro nth_equalityI) simp_all
  show "map fst (old_sample res) = iterkeys lay ?lv"
    by (simp add: e comp_def iterkeys_def)
  show "\<forall>zqz\<in>set ?lv. ?i < int (length (params (snd zqz))) \<and>
      dict_get (old_sample res) (fst zqz) = Inr (params (snd zqz) ! nat ?i)"
  proof
    fix zqz assume "zqz \<in> set ?lv"
    then have m: "zqz \<in> set ?it" using iteritems_set[OF ok d] by simp
    then obtain j where j: "j < length ?it" and zj: "?it ! j = zqz"
      by (metis in_set_conv_nth)
    have "distinct (map fst (old_sample res))"
      using di by (simp add: e comp_def)
    moreover have "(fst zqz, params (snd zqz) ! nat ?i) \<in> set (old_sample res)"
      using m by (force simp: e)
    ultimately have "dict_get (old_sample res) (fst zqz) = Inr (params (snd zqz) ! nat ?i)"
      by (rule dict_get_mem)
    then show "?i < int (length (params (snd zqz))) \<and>
      dict_get (old_sample res) (fst zqz) = Inr (params (snd zqz) ! nat ?i)"
      using inr[OF j] zj by simp
  qed
qed

lemma build_update_momentum:
  assumes b: "build_update lay self lj gauss u = Inr res"
    and ok: "layout_ok lay" and d: "distinct (map fst (latent_vars self))"
  shows "old_r_sample res =
     zip (iterkeys lay (latent_vars self))
       (momentum_draws gauss (iteritems lay (latent_vars self)) 0)"
    and "map fst (old_r_sample res) = iterkeys lay (latent_vars self)"
proof -
  let ?it = "iteritems lay (latent_vars self)"
  from build_update_raw[OF b]
  have "old_r_sample res = sample_momentum gauss ?it 0 []" by blast
  then show e: "old_r_sample res =
      zip (iterkeys lay (latent_vars self)) (momentum_draws gauss ?it 0)"
    using momentum_loop[of ?it "[]" gauss 0] iteritems_distinct[OF ok d]
    by (simp add: iterkeys_def)
  show "map fst (old_r_sample res) = iterkeys lay (latent_vars self)"
    by (simp add: e momentum_draws_length iterkeys_def)
qed

lemma build_update_simulate:
  assumes b: "build_update lay self lj gauss u = Inr res"
  shows "(n_steps self \<le> 0 \<and> new_sample res = old_sample res \<and>
          new_r_sample res = old_r_sample res) \<or>
         (0 < n_steps self \<and>
          leapfrog lay (old_sample res) (old_r_sample res) (step_size self) lj
            = Inr (new_sample res, new_r_sample res))"
proof -
  from build_update_raw[OF b]
  have "for_each (\<lambda>_ _. leapfrog lay (old_sample res) (old_r_sample res) (step_size self) lj)
        (py_range (n_steps self)) (old_sample res, old_r_sample res)
        = Inr (new_sample res, new_r_sample res)" by blast
  then show ?thesis
    by (cases "n_steps self \<le> 0") (auto simp: for_each_const py_range_def split: if_splits)
qed

lemma build_update_keys:
  assumes b: "build_update lay self lj gauss u = Inr res"
    and ok: "layout_ok lay" and d: "distinct (map fst (latent_vars self))"
  shows "distinct (map fst (old_sample res))"
    and "set (map fst (old_sample res)) = set (map fst (latent_vars self))"
    and "distinct (map fst (old_r_sample res))"
    and "set (map fst (old_r_sample res)) = set (map fst (latent_vars self))"
    and "distinct (map fst (new_sample res))"
    and "set (map fst (new_sample res)) = set (map fst (latent_vars self))"
    and "distinct (map fst (new_r_sample res))"
    and "set (map fst (new_r_sample res)) = set (map fst (latent_vars self))"
proof -
  let ?lv = "latent_vars self"
  have di: "distinct (iterkeys lay ?lv)" by (rule iterkeys_distinct[OF ok d])
  have si: "set (iterkeys lay ?lv) = set (map fst ?lv)" by (rule iterkeys_set[OF ok d])
  show o1: "distinct (map fst (old_sample res))"
    and o2: "set (map fst (old_sample res)) = set (map fst ?lv)"
    using build_update_old(2)[OF b ok d] di si by simp_all
  show r1: "distinct (map fst (old_r_sample res))"
    and r2: "set (map fst (old_r_sample res)) = set (map fst ?lv)"
    using build_update_momentum(2)[OF b ok d] di si by simp_all
  from build_update_simulate[OF b]
  have "(new_sample res = old_sample res \<and> new_r_sample res = old_r_sample res) \<or>
      leapfrog lay (old_sample res) (old_r_sample res) (step_size self) lj
            = Inr (new_sample res, new_r_sample res)"
    by blast
  then have "(distinct (map fst (new_sample res)) \<and>
      set (map fst (new_sample res)) = set (map fst ?lv)) \<and>
      (distinct (map fst (new_r_sample res)) \<and>
      set (map fst (new_r_sample res)) = set (map fst ?lv))"
  proof
    assume "new_sample res = old_sample res \<and> new_r_sample res = old_r_sample res"
    then show ?thesis using o1 o2 r1 r2 by simp
  next
    assume l: "leapfrog lay (old_sample res) (old_r_sample res) (step_size self) lj
            = Inr (new_sample res, new_r_sample res)"
    show ?thesis
      using leapfrog_keys(3,4,5,6)[OF l ok o1] o2 by simp
  qed
  then show "distinct (map fst (new_sample res))"
    and "set (map fst (new_sample res)) = set (map fst ?lv)"
    and "distinct (map fst (new_r_sample res))"
    and "set (map fst (new_r_sample res)) = set (map fst ?lv)"
    by blast+
qed

text \<open>
  The committed sample pairs the keys of the proposal, in the order of its iteration,
  with the values of the proposal or of the old sample, in the order of theirs.
\<close>

lemma build_update_sample:
  assumes b: "build_update lay self lj gauss u = Inr res"
    and ok: "layout_ok lay" and d: "distinct (map fst (latent_vars self))"
  shows "sample res = zip (iterkeys lay (new_sample res))
           (if accept res then itervalues lay (new_sample res)
            else itervalues lay (old_sample res))"
    and "distinct (map fst (sample res))"
    and "set (map fst (sample res)) = set (map fst (latent_vars self))"
    and "length (sample res) = length (latent_vars self)"
proof -
  let ?ks = "iterkeys lay (new_sample res)"
  let ?vs = "if accept res then itervalues lay (new_sample res)
             else itervalues lay (old_sample res)"
  note k = build_update_keys[OF b ok d]
  from build_update_raw[OF b]
  have s: "sample res = dict_of (zip ?ks ?vs) []" by blast
  have ln: "length (new_sample res) = length (latent_vars self)"
    using k(5,6) d by (metis distinct_card length_map)
  have lo: "length (old_sample res) = length (latent_vars self)"
    using k(1,2) d by (metis distinct_card length_map)
  have lk: "length ?ks = length (latent_vars self)"
    using iterkeys_length[OF ok k(5)] ln by simp
  have l: "length ?vs = length ?ks"
    using itervalues_length[OF ok k(5)] itervalues_length[OF ok k(1)] ln lo lk by simp
  have dk: "distinct ?ks" by (rule iterkeys_distinct[OF ok k(5)])
  have "distinct (map fst (zip ?ks ?vs))" using l dk by simp
  then show e: "sample res = zip ?ks ?vs"
    using dict_of_fresh[of "zip ?ks ?vs" "[]"] s by simp
  have m: "map fst (sample res) = ?ks" using l by (simp add: e)
  show "distinct (map fst (sample res))" using m dk by simp
  show "set (map fst (sample res)) = set (map fst (latent_vars self))"
    using m iterkeys_set[OF ok k(5)] k(6) by simp
  show "length (sample res) = length (latent_vars self)"
    using m lk by (metis length_map)
qed

lemma sample_of_one_dict:
  assumes ok: "layout_ok lay" and d: "distinct (map fst z)"
  shows "dict_get (zip (iterkeys lay z) (itervalues lay z)) k = dict_get z k"
  using dict_get_iteritems[OF ok d, of k] by (simp add: iteritems_zip)

lemma build_update_sample_accept:
  assumes b: "build_update lay self lj gauss u = Inr res"
    and ok: "layout_ok lay" and d: "distinct (map fst (latent_vars self))"
    and a: "accept res"
  shows "dict_get (sample res) k = dict_get (new_sample res) k"
  using build_update_sample(1)[OF b ok d] a
    sample_of_one_dict[OF ok build_update_keys(5)[OF b ok d], of k]
  by simp

lemma build_update_sample_same:
  assumes b: "build_update lay self lj gauss u = Inr res"
    and ok: "layout_ok lay" and d: "distinct (map fst (latent_vars self))"
    and a: "new_sample res = old_sample res"
  shows "dict_get (sample res) k = dict_get (old_sample res) k"
  using build_update_sample(1)[OF b ok d] a
    sample_of_one_dict[OF ok build_update_keys(1)[OF b ok d], of k]
  by simp

lemma build_update_sample_agree:
  assumes b: "build_update lay self lj gauss u = Inr res"
    and ok: "layout_ok lay" and d: "distinct (map fst (latent_vars self))"
    and a: "iterkeys lay (new_sample res) = iterkeys lay (old_sample res)"
  shows "dict_get (sample res) k =
     dict_get (if accept res then new_sample res else old_sample res) k"
proof (cases "accept res")
  case True
  then show ?thesis using build_update_sample_accept[OF b ok d] by simp
next
  case False
  then show ?thesis
    using build_update_sample(1)[OF b ok d] a
      sample_of_one_dict[OF ok build_update_keys(1)[OF b ok d], of k]
    by simp
qed

lemma build_update_ops:
  assumes b: "build_update lay self lj gauss u = Inr res"
    and ok: "layout_ok lay" and d: "distinct (map fst (latent_vars self))"
  shows "assign_ops res =
     map (\<lambda>z. ScatterUpdate z (t_var self) (the (map_of (sample res) z)))
       (iterkeys lay (latent_vars self)) @
     [AssignAdd (tf_select (accept res) 1 0)]"
proof -
  let ?it = "iteritems lay (latent_vars self)"
  from build_update_raw[OF b] obtain ops where
    f: "for_each (scatter_op (t_var self) (sample res)) ?it [] = Inr ops"
    and a: "assign_ops res = ops @ [AssignAdd (tf_select (accept res) 1 0)]"
    by blast
  from f obtain xs where xs: "map_err (\<lambda>zqz. dict_get (sample res) (fst zqz)) ?it = Inr xs"
    and ops: "ops = map2 (\<lambda>zqz x. ScatterUpdate (fst zqz) (t_var self) x) ?it xs"
    by (auto simp: scatter_loop split: sum.splits)
  have lx: "length xs = length ?it" by (rule map_err_length[OF xs])
  have "xs ! j = the (map_of (sample res) (fst (?it ! j)))" if j: "j < length ?it" for j
  proof -
    have "dict_get (sample res) (fst (?it ! j)) = Inr (xs ! j)"
      using map_err_nth[OF xs j] .
    then show ?thesis by (auto simp: dict_get_def split: option.splits)
  qed
  then have "ops = map (\<lambda>z. ScatterUpdate z (t_var self) (the (map_of (sample res) z)))
       (iterkeys lay (latent_vars self))"
    unfolding ops using lx by (intro nth_equalityI) (simp_all add: iterkeys_def)
  then show ?thesis using a by simp
qed


subsection \<open>Running the assignments\<close>

lemma run_op_counter:
  "run_op a s = Inr s' \<Longrightarrow> n_accept s' = n_accept s + add_amount a"
  by (cases a) (auto simp: run_op_def add_amount_def split: sum.splits if_splits)

lemma run_ops_counter:
  "for_each run_op ops s = Inr s' \<Longrightarrow> n_accept s' = n_accept s + sum_list (map add_amount ops)"
proof (induction ops arbitrary: s)
  case Nil
  then show ?case by simp
next
  case (Cons a ops)
  from Cons.prems obtain s1 where 1: "run_op a s = Inr s1"
    and 2: "for_each run_op ops s1 = Inr s'"
    by (auto split: sum.splits)
  show ?case using run_op_counter[OF 1] Cons.IH[OF 2] by simp
qed

lemma dict_set_present:
  "distinct (map fst d) \<Longrightarrow> k \<in> fst ` set d \<Longrightarrow>
   dict_set d k v = map (\<lambda>kv. if fst kv = k then (k, v) else kv) d"
proof (induction d)
  case Nil
  then show ?case by simp
next
  case (Cons a d)
  show ?case
  proof (cases "fst a = k")
    case True
    then have "k \<notin> fst ` set d" using Cons.prems(1) by auto
    then have "map (\<lambda>kv. if fst kv = k then (k, v) else kv) d = d"
      by (intro map_idI) auto
    then show ?thesis using True by (cases a) simp
  next
    case False
    then have "k \<in> fst ` set d" using Cons.prems(2) by auto
    then show ?thesis using Cons.IH Cons.prems(1) False by (cases a) simp
  qed
qed

text \<open>
  A group of writes, one for each key of a list of distinct keys, in any order:
  every chain named in the list gets its row, the others stay.
\<close>

lemma run_scatter:
  assumes "distinct (map fst (latent_vars self))" "distinct ks"
    "set ks \<subseteq> fst ` set (latent_vars self)"
  shows "for_each run_op (map (\<lambda>z. ScatterUpdate z t (f z)) ks) self =
    (if \<forall>zqz\<in>set (latent_vars self).
          fst zqz \<in> set ks \<longrightarrow> 0 \<le> t \<and> t < int (length (params (snd zqz)))
     then Inr (self\<lparr>latent_vars :=
            map (\<lambda>zqz. if fst zqz \<in> set ks
                        then (fst zqz, write_row t (snd zqz) (f (fst zqz))) else zqz)
              (latent_vars self)\<rparr>)
     else Inl IndexError)"
  using assms
proof (induction ks arbitrary: self)
  case Nil
  then show ?case by simp
next
  case (Cons k ks)
  let ?lv = "latent_vars self"
  let ?ok = "\<lambda>qz. 0 \<le> t \<and> t < int (length (params qz))"
  from Cons.prems(3) obtain qz where m: "(k, qz) \<in> set ?lv" by auto
  have g: "dict_get ?lv k = Inr qz" by (rule dict_get_mem[OF Cons.prems(1) m])
  have uniq: "q = qz" if "(k, q) \<in> set ?lv" for q
    using that m Cons.prems(1) by (meson eq_key_imp_eq_value)
  have kn: "k \<notin> set ks" and dk: "distinct ks" using Cons.prems(2) by simp_all
  show ?case
  proof (cases "?ok qz")
    case False
    then have "run_op (ScatterUpdate k t (f k)) self = Inl IndexError"
      by (simp add: run_op_def g)
    moreover have "\<not> (\<forall>zqz\<in>set ?lv. fst zqz \<in> set (k # ks) \<longrightarrow> ?ok (snd zqz))"
      using False m by force
    ultimately show ?thesis by simp
  next
    case True
    define lv1 where
      "lv1 = map (\<lambda>kv. if fst kv = k then (k, write_row t qz (f k)) else kv) ?lv"
    define s1 where "s1 = self\<lparr>latent_vars := lv1\<rparr>"
    let ?upd = "\<lambda>ks zqz. if fst zqz \<in> set ks
                  then (fst zqz, write_row t (snd zqz) (f (fst zqz))) else zqz"
    have ls1: "latent_vars s1 = lv1" by (simp add: s1_def)
    have "dict_set ?lv k (qz\<lparr>params := (params qz)[nat t := f k]\<rparr>) = lv1"
      using dict_set_present[OF Cons.prems(1), of k] m
      by (force simp: write_row_def lv1_def)
    then have step: "run_op (ScatterUpdate k t (f k)) self = Inr s1"
      using True by (simp add: run_op_def g s1_def)
    have k1: "map fst lv1 = map fst ?lv"
      unfolding lv1_def by (intro nth_equalityI) auto
    have d1: "distinct (map fst (latent_vars s1))"
      using Cons.prems(1) by (simp only: ls1 k1)
    have "fst ` set lv1 = fst ` set ?lv"
      using k1 by (metis list.set_map)
    then have s1: "set ks \<subseteq> fst ` set (latent_vars s1)"
      using Cons.prems(3) by (simp add: ls1)
    have c: "(\<forall>zqz\<in>set lv1. fst zqz \<in> set ks \<longrightarrow> ?ok (snd zqz)) \<longleftrightarrow>
        (\<forall>zqz\<in>set ?lv. fst zqz \<in> set (k # ks) \<longrightarrow> ?ok (snd zqz))"
      unfolding lv1_def using True kn uniq by (auto simp: image_iff)
    have r: "map (?upd ks) lv1 = map (?upd (k # ks)) ?lv"
    proof (rule nth_equalityI)
      show "length (map (?upd ks) lv1) = length (map (?upd (k # ks)) ?lv)"
        by (simp add: lv1_def)
      fix j assume "j < length (map (?upd ks) lv1)"
      then have j: "j < length ?lv" by (simp add: lv1_def)
      obtain z q where zq: "?lv ! j = (z, q)" by (cases "?lv ! j")
      have mem: "(z, q) \<in> set ?lv" using j zq nth_mem by metis
      show "map (?upd ks) lv1 ! j = map (?upd (k # ks)) ?lv ! j"
      proof (cases "z = k")
        case True
        then have "q = qz" using uniq mem by simp
        then show ?thesis using j zq True kn by (simp add: lv1_def)
      next
        case False
        then show ?thesis using j zq by (simp add: lv1_def)
      qed
    qed
    have u: "s1\<lparr>latent_vars := X\<rparr> = self\<lparr>latent_vars := X\<rparr>" for X
      by (simp add: s1_def)
    have "for_each run_op (map (\<lambda>z. ScatterUpdate z t (f z)) (k # ks)) self =
        for_each run_op (map (\<lambda>z. ScatterUpdate z t (f z)) ks) s1"
      using step by simp
    also have "\<dots> =
      (if \<forall>zqz\<in>set lv1. fst zqz \<in> set ks \<longrightarrow> ?ok (snd zqz)
       then Inr (s1\<lparr>latent_vars := map (?upd ks) lv1\<rparr>) else Inl IndexError)"
      using Cons.IH[OF d1 dk s1] by (simp only: ls1)
    also have "\<dots> =
      (if \<forall>zqz\<in>set ?lv. fst zqz \<in> set (k # ks) \<longrightarrow> ?ok (snd zqz)
       then Inr (self\<lparr>latent_vars := map (?upd (k # ks)) ?lv\<rparr>) else Inl IndexError)"
      by (simp only: c r u)
    finally show ?thesis .
  qed
qed

lemma run_update_eq:
  assumes b: "build_update lay self lj gauss u = Inr res"
    and ok: "layout_ok lay" and d: "distinct (map fst (latent_vars self))"
  shows "run_update (assign_ops res) self =
    (if \<forall>zqz\<in>set (latent_vars self).
          0 \<le> t_var self \<and> t_var self < int (length (params (snd zqz)))
     then Inr (self\<lparr>latent_vars :=
                  map (\<lambda>zqz. (fst zqz, write_row (t_var self) (snd zqz)
                                 (the (map_of (sample res) (fst zqz)))))
                    (latent_vars self),
                n_accept := n_accept self + tf_select (accept res) 1 0\<rparr>)
     else Inl IndexError)"
proof -
  let ?lv = "latent_vars self"
  let ?t = "t_var self"
  let ?ks = "iterkeys lay ?lv"
  let ?f = "\<lambda>z. the (map_of (sample res) z)"
  let ?W = "\<lambda>zqz. (fst zqz, write_row ?t (snd zqz) (?f (fst zqz)))"
  have dk: "distinct ?ks" by (rule iterkeys_distinct[OF ok d])
  have sk: "set ?ks = fst ` set ?lv" using iterkeys_set[OF ok d] by simp
  have sub: "set ?ks \<subseteq> fst ` set ?lv" using sk by simp
  have c: "(\<forall>zqz\<in>set ?lv. fst zqz \<in> set ?ks \<longrightarrow> 0 \<le> ?t \<and> ?t < int (length (params (snd zqz))))
      \<longleftrightarrow> (\<forall>zqz\<in>set ?lv. 0 \<le> ?t \<and> ?t < int (length (params (snd zqz))))"
    using sk by auto
  have m: "map (\<lambda>zqz. if fst zqz \<in> set ?ks then ?W zqz else zqz) ?lv = map ?W ?lv"
    using sk by (intro map_cong) auto
  have sc: "for_each run_op (map (\<lambda>z. ScatterUpdate z ?t (?f z)) ?ks) self =
    (if \<forall>zqz\<in>set ?lv. 0 \<le> ?t \<and> ?t < int (length (params (snd zqz)))
     then Inr (self\<lparr>latent_vars := map ?W ?lv\<rparr>) else Inl IndexError)"
    using run_scatter[OF d dk sub, of ?t ?f] by (simp only: c m)
  show ?thesis
    unfolding run_update_def build_update_ops[OF b ok d] for_each_append sc
    by (simp add: run_op_def)
qed

lemma run_update_result:
  assumes b: "build_update lay self lj gauss u = Inr res"
    and ok: "layout_ok lay" and d: "distinct (map fst (latent_vars self))"
    and r: "run_update (assign_ops res) self = Inr self'"
  shows "self' = self\<lparr>latent_vars :=
                  map (\<lambda>zqz. (fst zqz, write_row (t_var self) (snd zqz)
                                 (the (map_of (sample res) (fst zqz)))))
                    (latent_vars self),
                n_accept := n_accept self + tf_select (accept res) 1 0\<rparr>"
    and "\<forall>zqz\<in>set (latent_vars self).
           0 \<le> t_var self \<and> t_var self < int (length (params (snd zqz)))"
  using r unfolding run_update_eq[OF b ok d] by (auto split: if_splits)


lemma run_update_rows:
  assumes b: "build_update lay self lj gauss u = Inr res"
    and ok: "layout_ok lay" and d: "distinct (map fst (latent_vars self))"
    and r: "run_update (assign_ops res) self = Inr self'"
    and j: "j < length (latent_vars self)"
  shows "\<exists>x. dict_get (sample res) (fst (latent_vars self ! j)) = Inr x \<and>
      latent_vars self' ! j =
        (fst (latent_vars self ! j), write_row (t_var self) (snd (latent_vars self ! j)) x) \<and>
      params (snd (latent_vars self' ! j)) ! nat (t_var self) = x"
    and "0 \<le> t_var self" and "t_var self < int (length (params (snd (latent_vars self ! j))))"
proof -
  let ?lv = "latent_vars self"
  let ?x = "the (map_of (sample res) (fst (?lv ! j)))"
  have m: "?lv ! j \<in> set ?lv" using j by simp
  show t0: "0 \<le> t_var self"
    and t1: "t_var self < int (length (params (snd (?lv ! j))))"
    using run_update_result(2)[OF b ok d r] m by auto
  have "fst (?lv ! j) \<in> set (map fst (sample res))"
    using build_update_sample(3)[OF b ok d] m by simp
  then have g: "dict_get (sample res) (fst (?lv ! j)) = Inr ?x"
    by (rule dict_get_present)
  have row: "latent_vars self' ! j = (fst (?lv ! j), write_row (t_var self) (snd (?lv ! j)) ?x)"
    using run_update_result(1)[OF b ok d r] j by simp
  have "params (snd (latent_vars self' ! j)) ! nat (t_var self) = ?x"
    using t0 t1 by (simp add: row write_row_def)
  then show "\<exists>x. dict_get (sample res) (fst (?lv ! j)) = Inr x \<and>
      latent_vars self' ! j = (fst (?lv ! j), write_row (t_var self) (snd (?lv ! j)) x) \<and>
      params (snd (latent_vars self' ! j)) ! nat (t_var self) = x"
    using g row by blast
qed

lemma run_update_total:
  assumes b: "build_update lay self lj gauss u = Inr res"
    and ok: "layout_ok lay" and d: "distinct (map fst (latent_vars self))"
    and t0: "0 \<le> t_var self"
    and t1: "\<And>zqz. zqz \<in> set (latent_vars self) \<Longrightarrow>
               t_var self < int (length (params (snd zqz)))"
  shows "\<exists>self'. run_update (assign_ops res) self = Inr self'"
  unfolding run_update_eq[OF b ok d] using t0 t1 by simp


subsection \<open>Keys and shapes\<close>

lemma state_ok_iff:
  "state_ok lv s \<longleftrightarrow>
     distinct (map fst s) \<and> set (map fst s) = set (map fst lv) \<and>
     (\<forall>zqz\<in>set lv. \<exists>x. dict_get s (fst zqz) = Inr x \<and>
                        has_shape (get_event_shape (snd zqz)) x)"
proof -
  have "(case v of Inl e \<Rightarrow> False | Inr x \<Rightarrow> P x) \<longleftrightarrow> (\<exists>x. v = Inr x \<and> P x)"
    for v :: "error + tensor" and P
    by (cases v) simp_all
  then show ?thesis by (simp add: state_ok_def list_all_iff)
qed

lemma state_ok_values:
  assumes s: "state_ok lv s" and x: "x \<in> set (map snd s)"
  shows "\<exists>zqz\<in>set lv. has_shape (get_event_shape (snd zqz)) x"
proof -
  from x obtain k where kx: "(k, x) \<in> set s" by auto
  then have "k \<in> set (map fst lv)" using s by (force simp: state_ok_iff)
  then obtain qz where m: "(k, qz) \<in> set lv" by auto
  then obtain x' where g: "dict_get s k = Inr x'"
    and h: "has_shape (get_event_shape qz) x'"
    using s by (force simp: state_ok_iff)
  have "dict_get s k = Inr x" using s kx by (simp add: state_ok_iff dict_get_mem)
  then show ?thesis using g h m by force
qed

lemma leapfrog_state_ok:
  assumes l: "leapfrog lay z r h lj = Inr (z', r')" and ok: "layout_ok lay"
    and z: "state_ok lv z" and r: "state_ok lv r"
  shows "state_ok lv z' \<and> state_ok lv r'"
proof -
  have dz: "distinct (map fst z)" and kz: "set (map fst z) = set (map fst lv)"
    using z by (simp_all add: state_ok_iff)
  note k = leapfrog_keys[OF l ok dz]
  have "(\<exists>x. dict_get z' (fst zqz) = Inr x \<and> has_shape (get_event_shape (snd zqz)) x) \<and>
        (\<exists>x. dict_get r' (fst zqz) = Inr x \<and> has_shape (get_event_shape (snd zqz)) x)"
    if m: "zqz \<in> set lv" for zqz
  proof -
    have "fst zqz \<in> set (map fst z)" using m kz by simp
    from leapfrog_shapes[OF l ok dz this] obtain zv rv zv' rv' where
      1: "dict_get z (fst zqz) = Inr zv" "dict_get r (fst zqz) = Inr rv"
      and 2: "dict_get z' (fst zqz) = Inr zv'" "dict_get r' (fst zqz) = Inr rv'"
      and 3: "shape zv' = shape zv \<and> length (elems zv') = length (elems zv)"
      and 4: "shape rv' = shape rv \<and> length (elems rv') = length (elems rv)"
      by blast
    have "has_shape (get_event_shape (snd zqz)) zv"
      using z m 1(1) by (force simp: state_ok_iff)
    then have a: "has_shape (get_event_shape (snd zqz)) zv'"
      using 3 by (rule has_shape_same)
    have "has_shape (get_event_shape (snd zqz)) rv"
      using r m 1(2) by (force simp: state_ok_iff)
    then have b: "has_shape (get_event_shape (snd zqz)) rv'"
      using 4 by (rule has_shape_same)
    show ?thesis using 2 a b by simp
  qed
  then show ?thesis
    using k(3,4,5,6) kz by (simp add: state_ok_iff)
qed

lemma old_sample_ok:
  assumes b: "build_update lay self lj gauss u = Inr res"
    and ok: "layout_ok lay" and d: "distinct (map fst (latent_vars self))"
    and c: "chain_ok (latent_vars self)"
  shows "state_ok (latent_vars self) (old_sample res)"
proof -
  let ?lv = "latent_vars self"
  let ?i = "max (t_var self - 1) 0"
  have "\<exists>x. dict_get (old_sample res) (fst zqz) = Inr x \<and>
      has_shape (get_event_shape (snd zqz)) x" if m: "zqz \<in> set ?lv" for zqz
  proof -
    from build_update_old(3)[OF b ok d] m
    have i: "?i < int (length (params (snd zqz)))"
      and g: "dict_get (old_sample res) (fst zqz) = Inr (params (snd zqz) ! nat ?i)"
      by simp_all
    have "params (snd zqz) ! nat ?i \<in> set (params (snd zqz))"
      using i by (intro nth_mem) linarith
    moreover have "snd zqz \<in> set (map snd ?lv)" using m by simp
    ultimately have "has_shape (get_event_shape (snd zqz)) (params (snd zqz) ! nat ?i)"
      using c by (simp only: chain_ok_def)
    then show ?thesis using g by simp
  qed
  then show ?thesis
    using build_update_keys(1,2)[OF b ok d] by (simp add: state_ok_iff)
qed

lemma old_r_sample_ok:
  assumes b: "build_update lay self lj gauss u = Inr res"
    and ok: "layout_ok lay" and d: "distinct (map fst (latent_vars self))"
  shows "state_ok (latent_vars self) (old_r_sample res)"
proof -
  let ?lv = "latent_vars self"
  let ?it = "iteritems lay ?lv"
  let ?ds = "momentum_draws gauss ?it 0"
  have o: "old_r_sample res = zip (map fst ?it) ?ds"
    using build_update_momentum(1)[OF b ok d] by (simp add: iterkeys_def)
  have l: "length ?ds = length ?it" by (rule momentum_draws_length)
  have di: "distinct (map fst ?it)" by (rule iteritems_distinct[OF ok d])
  have "\<exists>x. dict_get (old_r_sample res) (fst zqz) = Inr x \<and>
      has_shape (get_event_shape (snd zqz)) x" if m: "zqz \<in> set ?lv" for zqz
  proof -
    from m have "zqz \<in> set ?it" using iteritems_set[OF ok d] by simp
    then obtain j where j: "j < length ?it" and zj: "?it ! j = zqz"
      by (metis in_set_conv_nth)
    have "dict_get (zip (map fst ?it) ?ds) (map fst ?it ! j) = Inr (?ds ! j)"
      using di l j by (intro dict_get_zip_nth) simp_all
    then have g: "dict_get (old_r_sample res) (fst zqz) = Inr (?ds ! j)"
      using j zj by (simp add: o)
    have "has_shape (get_event_shape (snd (?it ! j))) (?ds ! j)"
      using momentum_draws_shape[of ?it gauss 0] j by (rule list_all2_nthD)
    then show ?thesis using g zj by simp
  qed
  then show ?thesis
    using build_update_keys(3,4)[OF b ok d] by (simp add: state_ok_iff)
qed

lemma new_sample_ok:
  assumes b: "build_update lay self lj gauss u = Inr res"
    and ok: "layout_ok lay" and d: "distinct (map fst (latent_vars self))"
    and c: "chain_ok (latent_vars self)"
  shows "state_ok (latent_vars self) (new_sample res) \<and>
         state_ok (latent_vars self) (new_r_sample res)"
  using build_update_simulate[OF b] old_sample_ok[OF b ok d c] old_r_sample_ok[OF b ok d]
    leapfrog_state_ok[OF _ ok old_sample_ok[OF b ok d c] old_r_sample_ok[OF b ok d]]
  by auto

text \<open>
  A step that returns has summed the kinetic terms, which \<^const>\<open>tf_reduce_sum\<close> does
  only for tensors of one shape: the latent variables then share one event shape.
\<close>

lemma common_event_shape:
  assumes b: "build_update lay self lj gauss u = Inr res"
    and ok: "layout_ok lay" and d: "distinct (map fst (latent_vars self))"
    and m1: "a \<in> set (latent_vars self)" and m2: "a' \<in> set (latent_vars self)"
  shows "get_event_shape (snd a) = get_event_shape (snd a')"
proof -
  let ?r = "old_r_sample res"
  have s: "state_ok (latent_vars self) ?r" by (rule old_r_sample_ok[OF b ok d])
  have dr: "distinct (map fst ?r)" by (rule build_update_keys(3)[OF b ok d])
  from s m1 obtain x where x: "dict_get ?r (fst a) = Inr x"
    and hx: "has_shape (get_event_shape (snd a)) x" by (force simp: state_ok_iff)
  from s m2 obtain y where y: "dict_get ?r (fst a') = Inr y"
    and hy: "has_shape (get_event_shape (snd a')) y" by (force simp: state_ok_iff)
  have "x \<in> set (map snd ?r)" using dict_get_InrD[OF x] by force
  then have xi: "x \<in> set (itervalues lay ?r)" using itervalues_set[OF ok dr] by simp
  have "y \<in> set (map snd ?r)" using dict_get_InrD[OF y] by force
  then have yi: "y \<in> set (itervalues lay ?r)" using itervalues_set[OF ok dr] by simp
  from build_update_raw[OF b] obtain k where
    "tf_reduce_sum (kinetic_terms lay ?r) = Inr k" by blast
  then have "same_shape x y"
    unfolding kinetic_terms_def using xi yi by (rule tf_reduce_sum_same_shape)
  with hx hy show ?thesis by (rule has_shape_unique)
qed

lemma sample_ok:
  assumes b: "build_update lay self lj gauss u = Inr res"
    and ok: "layout_ok lay" and d: "distinct (map fst (latent_vars self))"
    and c: "chain_ok (latent_vars self)"
  shows "state_ok (latent_vars self) (sample res)"
proof -
  let ?lv = "latent_vars self"
  let ?vs = "if accept res then itervalues lay (new_sample res)
             else itervalues lay (old_sample res)"
  note k = build_update_keys[OF b ok d]
  have vs: "\<exists>zqz\<in>set ?lv. has_shape (get_event_shape (snd zqz)) x" if "x \<in> set ?vs" for x
  proof (cases "accept res")
    case True
    then have "x \<in> set (map snd (new_sample res))"
      using that itervalues_set[OF ok k(5)] by simp
    then show ?thesis
      using state_ok_values new_sample_ok[OF b ok d c] by blast
  next
    case False
    then have "x \<in> set (map snd (old_sample res))"
      using that itervalues_set[OF ok k(1)] by simp
    then show ?thesis
      using state_ok_values old_sample_ok[OF b ok d c] by blast
  qed
  have "\<exists>x. dict_get (sample res) (fst zqz) = Inr x \<and>
      has_shape (get_event_shape (snd zqz)) x" if m: "zqz \<in> set ?lv" for zqz
  proof -
    have "fst zqz \<in> set (map fst (sample res))"
      using build_update_sample(3)[OF b ok d] m by simp
    from dict_get_in_values[OF this] obtain x where
      g: "dict_get (sample res) (fst zqz) = Inr x" and x: "x \<in> set (map snd (sample res))"
      by blast
    have "x \<in> set ?vs"
      using x unfolding build_update_sample(1)[OF b ok d]
      by (auto dest: set_zip_rightD)
    from vs[OF this] obtain a where a: "a \<in> set ?lv"
      and h: "has_shape (get_event_shape (snd a)) x" by blast
    have "get_event_shape (snd a) = get_event_shape (snd zqz)"
      by (rule common_event_shape[OF b ok d a m])
    then show ?thesis using g h by simp
  qed
  then show ?thesis
    using build_update_sample(2,3)[OF b ok d] by (simp add: state_ok_iff)
qed

lemma write_row_ok:
  assumes "\<forall>row\<in>set (params qz). has_shape (get_event_shape qz) row"
    and "has_shape (get_event_shape qz) x"
  shows "\<forall>row\<in>set (params (write_row t qz x)).
           has_shape (get_event_shape (write_row t qz x)) row"
proof
  fix row assume "row \<in> set (params (write_row t qz x))"
  then have "row \<in> insert x (set (params qz))"
    using set_update_subset_insert[of "params qz" "nat t" x] by (auto simp: write_row_def)
  then show "has_shape (get_event_shape (write_row t qz x)) row"
    using assms by (auto simp: write_row_def get_event_shape_def)
qed

lemma chains_after_run:
  assumes b: "build_update lay self lj gauss u = Inr res"
    and ok: "layout_ok lay" and d: "distinct (map fst (latent_vars self))"
    and c: "chain_ok (latent_vars self)"
    and r: "run_update (assign_ops res) self = Inr self'"
  shows "map fst (latent_vars self') = map fst (latent_vars self)"
    and "chain_ok (latent_vars self')"
proof -
  let ?lv = "latent_vars self"
  let ?W = "\<lambda>zqz. (fst zqz, write_row (t_var self) (snd zqz)
                       (the (map_of (sample res) (fst zqz))))"
  have lv': "latent_vars self' = map ?W ?lv"
    using run_update_result(1)[OF b ok d r] by simp
  show "map fst (latent_vars self') = map fst ?lv"
    by (simp add: lv' comp_def)
  have "\<forall>row\<in>set (params qz'). has_shape (get_event_shape qz') row"
    if "qz' \<in> set (map snd (latent_vars self'))" for qz'
  proof -
    from that obtain zqz where m: "zqz \<in> set ?lv"
      and q: "qz' = write_row (t_var self) (snd zqz) (the (map_of (sample res) (fst zqz)))"
      by (auto simp: lv')
    have 1: "\<forall>row\<in>set (params (snd zqz)). has_shape (get_event_shape (snd zqz)) row"
      using c m by (simp add: chain_ok_def)
    from sample_ok[OF b ok d c] m obtain x where
      "dict_get (sample res) (fst zqz) = Inr x" "has_shape (get_event_shape (snd zqz)) x"
      by (force simp: state_ok_iff)
    then have 2: "has_shape (get_event_shape (snd zqz)) (the (map_of (sample res) (fst zqz)))"
      by (auto simp: dict_get_def split: option.splits)
    show ?thesis unfolding q by (rule write_row_ok[OF 1 2])
  qed
  then show "chain_ok (latent_vars self')"
    unfolding chain_ok_def by blast
qed


subsection \<open>The step returns on well-formed input\<close>

lemma read_returns:
  assumes ok: "layout_ok lay" and d: "distinct (map fst lv)"
    and t0: "0 \<le> t"
    and t1: "\<And>qz. qz \<in> set (map snd lv) \<Longrightarrow> t < int (length (params qz))"
  shows "for_each (read_old_sample t) (iteritems lay lv) [] =
     Inr (map (\<lambda>zqz. (fst zqz, params (snd zqz) ! nat (max (t - 1) 0))) (iteritems lay lv))"
proof -
  let ?it = "iteritems lay lv"
  let ?i = "max (t - 1) 0"
  have "tf_gather (params (snd zqz)) ?i = Inr (params (snd zqz) ! nat ?i)"
    if "zqz \<in> set ?it" for zqz
  proof -
    have "snd zqz \<in> set (map snd lv)" using that iteritems_set[OF ok d] by simp
    from t1[OF this] t0 show ?thesis by (auto simp: tf_gather_def)
  qed
  then have "map_err (\<lambda>zqz. tf_gather (params (snd zqz)) ?i) ?it
      = Inr (map (\<lambda>zqz. params (snd zqz) ! nat ?i) ?it)"
    by (rule map_err_total)
  then show ?thesis
    using read_loop[of ?it "[]" t] iteritems_distinct[OF ok d]
    by (simp add: zip_map_self)
qed

lemma draws_uniform:
  assumes "\<And>qz. qz \<in> set (map snd lv) \<Longrightarrow> get_event_shape qz = s"
  shows "\<forall>x\<in>set (momentum_draws gauss lv c). has_shape s x"
  using assms
  by (induction lv arbitrary: c) (auto simp: normal_sample_def has_shape_def)

lemma build_update_returns:
  assumes ok: "layout_ok lay" and d: "distinct (map fst (latent_vars self))"
    and t0: "0 \<le> t_var self"
    and t1: "\<And>qz. qz \<in> set (map snd (latent_vars self)) \<Longrightarrow>
               t_var self < int (length (params qz))"
    and sh: "\<And>qz. qz \<in> set (map snd (latent_vars self)) \<Longrightarrow> get_event_shape qz = s"
    and old: "old = map (\<lambda>zqz. (fst zqz, params (snd zqz) ! nat (max (t_var self - 1) 0)))
                      (iteritems lay (latent_vars self))"
    and old_r: "old_r = zip (iterkeys lay (latent_vars self))
                          (momentum_draws gauss (iteritems lay (latent_vars self)) 0)"
    and sim: "for_each (\<lambda>_ _. leapfrog lay old old_r (step_size self) lj)
                (py_range (n_steps self)) (old, old_r) = Inr (new_s, new_r)"
    and kn: "distinct (map fst new_s)" "set (map fst new_s) = set (map fst (latent_vars self))"
    and kr: "distinct (map fst new_r)" "\<forall>x\<in>set (map snd new_r). has_shape s x"
  shows "\<exists>res. build_update lay self lj gauss u = Inr res"
proof -
  let ?lv = "latent_vars self"
  let ?it = "iteritems lay ?lv"
  let ?ds = "momentum_draws gauss ?it 0"
  have di: "distinct (map fst ?it)" by (rule iteritems_distinct[OF ok d])
  have rd: "for_each (read_old_sample (t_var self)) ?it [] = Inr old"
    unfolding old by (rule read_returns[OF ok d t0 t1])
  have mo: "sample_momentum gauss ?it 0 [] = old_r"
    using momentum_loop[of ?it "[]" gauss 0] di by (simp add: old_r iterkeys_def)
  have lds: "length ?ds = length ?it" by (rule momentum_draws_length)
  have ko: "map fst old = map fst ?it" by (simp add: old comp_def)
  have dor: "distinct (map fst old_r)" using di lds by (simp add: old_r iterkeys_def)
  have "\<forall>x\<in>set ?ds. has_shape s x"
  proof (rule draws_uniform)
    fix qz assume "qz \<in> set (map snd ?it)"
    then have "qz \<in> set (map snd ?lv)" using iteritems_set[OF ok d] by simp
    then show "get_event_shape qz = s" by (rule sh)
  qed
  then have vr: "\<forall>x\<in>set (map snd old_r). has_shape s x"
    using lds by (simp add: old_r iterkeys_def)
  have ke: "tf_reduce_sum (kinetic_terms lay old_r) =
      Inr (sum_list (map (\<lambda>x. sum_list (elems (tf_scale 0.5 (tf_square x))))
             (itervalues lay old_r)))"
    unfolding kinetic_terms_def
  proof (rule tf_reduce_sum_total[of _ s])
    fix x assume "x \<in> set (itervalues lay old_r)"
    then have "x \<in> set (map snd old_r)" by (simp only: itervalues_set[OF ok dor])
    then show "has_shape s x" using vr by blast
  qed
  have ke': "tf_reduce_sum (kinetic_terms lay new_r) =
      Inr (sum_list (map (\<lambda>x. sum_list (elems (tf_scale 0.5 (tf_square x))))
             (itervalues lay new_r)))"
    unfolding kinetic_terms_def
  proof (rule tf_reduce_sum_total[of _ s])
    fix x assume "x \<in> set (itervalues lay new_r)"
    then have "x \<in> set (map snd new_r)" by (simp only: itervalues_set[OF ok kr(1)])
    then show "has_shape s x" using kr(2) by blast
  qed
  have lk: "length (iterkeys lay new_s) = length new_s"
    by (rule iterkeys_length[OF ok kn(1)])
  have sc: "\<exists>ops. for_each (scatter_op (t_var self)
        (dict_of (zip (iterkeys lay new_s) vs) [])) ?it [] = Inr ops"
    if l: "length vs = length new_s" for vs
  proof -
    have "distinct (map fst (zip (iterkeys lay new_s) vs))"
      using iterkeys_distinct[OF ok kn(1)] l lk by simp
    then have e: "dict_of (zip (iterkeys lay new_s) vs) [] = zip (iterkeys lay new_s) vs"
      using dict_of_fresh[of "zip (iterkeys lay new_s) vs" "[]"] by simp
    have "set (map fst ?it) \<subseteq> set (map fst (zip (iterkeys lay new_s) vs))"
      using l lk iterkeys_set[OF ok kn(1)] kn(2) iteritems_set[OF ok d] by simp
    then show ?thesis unfolding e by (rule scatter_total)
  qed
  have lo: "length old = length new_s"
  proof -
    have "length new_s = length ?lv" using kn d by (metis distinct_card length_map)
    then show ?thesis using iteritems_length[OF ok d] by (simp add: old)
  qed
  have dod: "distinct (map fst old)" using ko di by simp
  from sc[of "itervalues lay new_s"] itervalues_length[OF ok kn(1)]
  obtain ops1 where s1: "for_each (scatter_op (t_var self)
        (dict_of (zip (iterkeys lay new_s) (itervalues lay new_s)) [])) ?it [] = Inr ops1"
    by auto
  from sc[of "itervalues lay old"] itervalues_length[OF ok dod] lo
  obtain ops2 where s2: "for_each (scatter_op (t_var self)
        (dict_of (zip (iterkeys lay new_s) (itervalues lay old)) [])) ?it [] = Inr ops2"
    by auto
  show ?thesis
    unfolding build_update_def Let_def tf_cond_list
    by (simp add: rd mo sim ke ke' s1 s2)
qed

lemma build_update_zero_total:
  assumes ok: "layout_ok lay" and d: "distinct (map fst (latent_vars self))"
    and n: "n_steps self \<le> 0"
    and t0: "0 \<le> t_var self"
    and t1: "\<And>qz. qz \<in> set (map snd (latent_vars self)) \<Longrightarrow>
               t_var self < int (length (params qz))"
    and sh: "\<And>qz. qz \<in> set (map snd (latent_vars self)) \<Longrightarrow> get_event_shape qz = s"
  shows "\<exists>res. build_update lay self lj gauss u = Inr res"
proof -
  let ?lv = "latent_vars self"
  let ?it = "iteritems lay ?lv"
  let ?ds = "momentum_draws gauss ?it 0"
  let ?old = "map (\<lambda>zqz. (fst zqz, params (snd zqz) ! nat (max (t_var self - 1) 0))) ?it"
  let ?old_r = "zip (iterkeys lay ?lv) ?ds"
  have di: "distinct (map fst ?it)" by (rule iteritems_distinct[OF ok d])
  have lds: "length ?ds = length ?it" by (rule momentum_draws_length)
  have sim: "for_each (\<lambda>_ _. leapfrog lay ?old ?old_r (step_size self) lj)
                (py_range (n_steps self)) (?old, ?old_r) = Inr (?old, ?old_r)"
    using n by (simp add: py_range_def)
  have k1: "distinct (map fst ?old)" using di by (simp add: comp_def)
  have k2: "set (map fst ?old) = set (map fst ?lv)"
    using iterkeys_set[OF ok d] by (simp add: comp_def iterkeys_def)
  have k3: "distinct (map fst ?old_r)" using di lds by (simp add: iterkeys_def)
  have "\<forall>x\<in>set ?ds. has_shape s x"
  proof (rule draws_uniform)
    fix qz assume "qz \<in> set (map snd ?it)"
    then have "qz \<in> set (map snd ?lv)" using iteritems_set[OF ok d] by simp
    then show "get_event_shape qz = s" by (rule sh)
  qed
  then have k4: "\<forall>x\<in>set (map snd ?old_r). has_shape s x"
    using lds by (simp add: iterkeys_def)
  show ?thesis
    by (rule build_update_returns[OF ok d t0 t1 sh refl refl sim k1 k2 k3 k4])
qed

lemma update_step_returns:
  assumes ok: "layout_ok lay" and d: "distinct (map fst (latent_vars self))"
    and t0: "0 \<le> t_var self"
    and t1: "\<And>qz. qz \<in> set (map snd (latent_vars self)) \<Longrightarrow>
               t_var self < int (length (params qz))"
    and sh: "\<And>qz. qz \<in> set (map snd (latent_vars self)) \<Longrightarrow> get_event_shape qz = s"
    and c: "chain_ok (latent_vars self)"
    and g: "\<forall>z' key x. dict_get z' key = Inr x \<longrightarrow> same_shape (grad_density lj z' key) x"
  shows "\<exists>res self'. build_update lay self lj gauss u = Inr res \<and>
           run_update (assign_ops res) self = Inr self'"
proof -
  let ?lv = "latent_vars self"
  let ?it = "iteritems lay ?lv"
  let ?i = "max (t_var self - 1) 0"
  let ?ds = "momentum_draws gauss ?it 0"
  let ?old = "map (\<lambda>zqz. (fst zqz, params (snd zqz) ! nat ?i)) ?it"
  let ?old_r = "zip (iterkeys lay ?lv) ?ds"
  have di: "distinct (map fst ?it)" by (rule iteritems_distinct[OF ok d])
  have lds: "length ?ds = length ?it" by (rule momentum_draws_length)
  have k1: "distinct (map fst ?old)" using di by (simp add: comp_def)
  have k2: "set (map fst ?old) = set (map fst ?lv)"
    using iterkeys_set[OF ok d] by (simp add: comp_def iterkeys_def)
  have k3: "distinct (map fst ?old_r)" using di lds by (simp add: iterkeys_def)
  have k5: "set (map fst ?old_r) = set (map fst ?lv)"
    using iterkeys_set[OF ok d] lds by (simp add: iterkeys_def)
  have "\<forall>x\<in>set ?ds. has_shape s x"
  proof (rule draws_uniform)
    fix qz assume "qz \<in> set (map snd ?it)"
    then have "qz \<in> set (map snd ?lv)" using iteritems_set[OF ok d] by simp
    then show "get_event_shape qz = s" by (rule sh)
  qed
  then have k4: "\<forall>x\<in>set (map snd ?old_r). has_shape s x"
    using lds by (simp add: iterkeys_def)
  have vo: "\<forall>x\<in>set (map snd ?old). has_shape s x"
  proof
    fix x assume "x \<in> set (map snd ?old)"
    then obtain zqz where m: "zqz \<in> set ?lv" and x: "x = params (snd zqz) ! nat ?i"
      using iteritems_set[OF ok d] by auto
    have q: "snd zqz \<in> set (map snd ?lv)" using m by simp
    have "nat ?i < length (params (snd zqz))" using t1[OF q] t0 by linarith
    then have "x \<in> set (params (snd zqz))" unfolding x by (rule nth_mem)
    then have "has_shape (get_event_shape (snd zqz)) x"
      using c q by (simp only: chain_ok_def)
    then show "has_shape s x" using sh[OF q] by simp
  qed
  have sub: "set (map fst ?old) \<subseteq> set (map fst ?old_r)" using k2 k5 by simp
  from leapfrog_total[OF ok k1 sub vo k4 g, of "step_size self"] obtain z' r' where
    lf: "leapfrog lay ?old ?old_r (step_size self) lj = Inr (z', r')" by blast
  note lk = leapfrog_keys[OF lf ok k1]
  have vr': "\<forall>x\<in>set (map snd r'). has_shape s x"
  proof
    fix x assume "x \<in> set (map snd r')"
    then obtain k where kx: "(k, x) \<in> set r'" by auto
    then have "k \<in> set (map fst ?old)" using lk(6) by force
    from leapfrog_shapes[OF lf ok k1 this] obtain rv rv' where
      1: "dict_get ?old_r k = Inr rv" and 2: "dict_get r' k = Inr rv'"
      and 3: "shape rv' = shape rv \<and> length (elems rv') = length (elems rv)"
      by blast
    have "rv \<in> set (map snd ?old_r)" using dict_get_InrD[OF 1] by force
    then have "has_shape s rv" using k4 by blast
    then have "has_shape s rv'" using 3 by (rule has_shape_same)
    moreover have "dict_get r' k = Inr x" using lk(4) kx by (rule dict_get_mem)
    ultimately show "has_shape s x" using 2 by simp
  qed
  define new where
    "new = (if py_range (n_steps self) = [] then (?old, ?old_r) else (z', r'))"
  have sim: "for_each (\<lambda>_ _. leapfrog lay ?old ?old_r (step_size self) lj)
      (py_range (n_steps self)) (?old, ?old_r) = Inr (fst new, snd new)"
    using lf by (simp add: for_each_const new_def)
  have n1: "distinct (map fst (fst new))" using k1 lk(3) by (simp add: new_def)
  have n2: "set (map fst (fst new)) = set (map fst ?lv)"
  proof (cases "py_range (n_steps self) = []")
    case True
    then have "fst new = ?old" by (simp add: new_def)
    then show ?thesis using k2 by (simp only:)
  next
    case False
    then have "fst new = z'" by (simp add: new_def)
    then show ?thesis using lk(5) k2 by (simp only:)
  qed
  have n3: "distinct (map fst (snd new))" using k3 lk(4) by (simp add: new_def)
  have n4: "\<forall>x\<in>set (map snd (snd new)). has_shape s x" using k4 vr' by (simp add: new_def)
  from build_update_returns[OF ok d t0 t1 sh refl refl sim n1 n2 n3 n4]
  obtain res where b: "build_update lay self lj gauss u = Inr res" by blast
  have "t_var self < int (length (params (snd zqz)))" if "zqz \<in> set ?lv" for zqz
    using t1[of "snd zqz"] that by simp
  from run_update_total[OF b ok d t0 this]
  obtain self' where "run_update (assign_ops res) self = Inr self'" by blast
  with b show ?thesis by blast
qed


subsection \<open>What holds on every interpreter\<close>

lemma sample_momentum_distinct:
  "distinct (map fst acc) \<Longrightarrow> distinct (map fst (sample_momentum gauss lv c acc))"
proof (induction lv arbitrary: c acc)
  case Nil
  then show ?case by simp
next
  case (Cons a lv)
  obtain z qz where a: "a = (z, qz)" by (cases a)
  show ?case
    using Cons.IH[OF dict_set_distinct[OF Cons.prems]]
    by (simp add: a split: prod.splits)
qed

lemma read_old_sample_step:
  "read_old_sample t (z, qz) d =
     (case tf_gather (params qz) (max (t - 1) 0) of
        Inl e \<Rightarrow> Inl e | Inr x \<Rightarrow> Inr (dict_set d z x))"
  by (simp add: read_old_sample_def)

lemma read_loop_distinct:
  "for_each (read_old_sample t) lv acc = Inr s \<Longrightarrow> distinct (map fst acc) \<Longrightarrow>
   distinct (map fst s)"
proof (induction lv arbitrary: acc)
  case Nil
  then show ?case by simp
next
  case (Cons a lv)
  obtain z qz where a: "a = (z, qz)" by (cases a)
  from Cons.prems(1) obtain x where
    "for_each (read_old_sample t) lv (dict_set acc z x) = Inr s"
    by (auto simp: a read_old_sample_step split: sum.splits)
  then show ?case
    using Cons.IH dict_set_distinct[OF Cons.prems(2)] by blast
qed

lemma momenta_distinct:
  assumes b: "build_update lay self lj gauss u = Inr res" and ok: "layout_ok lay"
  shows "distinct (map fst (old_r_sample res))" and "distinct (map fst (new_r_sample res))"
proof -
  from build_update_raw[OF b] have
    o: "for_each (read_old_sample (t_var self)) (iteritems lay (latent_vars self)) []
          = Inr (old_sample res)"
    and m: "old_r_sample res = sample_momentum gauss (iteritems lay (latent_vars self)) 0 []"
    by blast+
  have dz: "distinct (map fst (old_sample res))"
    using read_loop_distinct[OF o] by simp
  show dr: "distinct (map fst (old_r_sample res))"
    unfolding m by (rule sample_momentum_distinct) simp
  from build_update_simulate[OF b]
  show "distinct (map fst (new_r_sample res))"
    using dr leapfrog_keys(4)[OF _ ok dz] by auto
qed

lemma accept_rule:
  assumes "build_update lay self lj gauss u = Inr res"
  shows "accept res = fless (tf_log u) (ratio res)"
    and "0 < u \<Longrightarrow> ratio res = Fin x \<Longrightarrow> accept res \<longleftrightarrow> ln u < x"
    and "ratio res = NaN \<Longrightarrow> \<not> accept res"
proof -
  from build_update_raw[OF assms]
  show a: "accept res = fless (tf_log u) (ratio res)" by blast
  show "0 < u \<Longrightarrow> ratio res = Fin x \<Longrightarrow> accept res \<longleftrightarrow> ln u < x"
    using a by (simp add: tf_log_def)
  show "ratio res = NaN \<Longrightarrow> \<not> accept res"
    using a by (cases "tf_log u") simp_all
qed

lemma scatter_ops_keep_counter:
  assumes "for_each (scatter_op t smp) lv [] = Inr ops" "a \<in> set ops"
  shows "add_amount a = 0"
proof -
  from assms(1) obtain xs where
    "ops = map2 (\<lambda>zqz x. ScatterUpdate (fst zqz) t x) lv xs"
    by (auto simp: scatter_loop split: sum.splits)
  then show ?thesis using assms(2) by (auto simp: add_amount_def set_zip)
qed


subsection \<open>Reversing the leapfrog step when iteration follows insertion\<close>

lemma iterkeys_insertion:
  "distinct (map fst d) \<Longrightarrow> iterkeys insertion_order d = map fst d"
  using iterkeys_ok[OF layout_ok_insertion] by (simp add: insertion_order_def)

lemma leapfrog_insertion_iff:
  assumes dz: "distinct (map fst z)"
  shows "leapfrog insertion_order z r h lj = Inr (z', r') \<longleftrightarrow>
     (\<exists>ps rs. length ps = length z \<and> length rs = length z \<and>
        z' = zip (map fst z) (map fst ps) \<and> r' = zip (map fst z) rs \<and>
        (\<forall>j<length z. kick_drift z r h lj (map fst z ! j) = Inr (ps ! j)) \<and>
        (\<forall>j<length z. kick h (snd (ps ! j), grad_density lj z' (map fst z ! j))
                         = Inr (rs ! j)))"
  (is "?L \<longleftrightarrow> ?R")
proof -
  have k: "iterkeys insertion_order z = map fst z" by (rule iterkeys_insertion[OF dz])
  have k': "iterkeys insertion_order (zip (map fst z) (map fst ps)) = map fst z"
    if "length ps = length z" for ps :: "(tensor \<times> tensor) list"
    using iterkeys_insertion[of "zip (map fst z) (map fst ps)"] dz that by simp
  show ?thesis
    unfolding leapfrog_Inr_iff[OF layout_ok_insertion dz] k
    using k' by (intro iffI; elim exE conjE; intro exI conjI; simp)
qed

lemma leapfrog_reverse:
  assumes lf: "leapfrog insertion_order z r h lj = Inr (z', r')"
    and d: "distinct (map fst z)"
  shows "\<exists>r''. leapfrog insertion_order z' r' (- h) lj = Inr (z, r'') \<and>
     map fst z' = map fst z \<and> map fst r'' = map fst z \<and>
     (\<forall>k\<in>set (map fst z). dict_get r'' k = dict_get r k)"
proof -
  let ?ks = "map fst z"
  let ?n = "length z"
  from lf obtain ps rs where lp: "length ps = ?n" and lr: "length rs = ?n"
    and z': "z' = zip ?ks (map fst ps)" and r': "r' = zip ?ks rs"
    and a: "\<forall>j<?n. kick_drift z r h lj (?ks ! j) = Inr (ps ! j)"
    and b: "\<forall>j<?n. kick h (snd (ps ! j), grad_density lj z' (?ks ! j)) = Inr (rs ! j)"
    unfolding leapfrog_insertion_iff[OF d] by blast
  have kz': "map fst z' = ?ks" using lp by (simp add: z')
  have lz': "length z' = ?n" using lp by (simp add: z')
  have d': "distinct (map fst z')" using d kz' by simp
  define rvals where "rvals = map (\<lambda>k. projr (dict_get r k)) ?ks"
  define ps' where "ps' = zip (map snd z) (map snd ps)"
  have lps': "length ps' = ?n" using lp by (simp add: ps'_def)
  have lrv: "length rvals = ?n" by (simp add: rvals_def)
  have fst_ps': "map fst ps' = map snd z"
    using lp by (simp add: ps'_def)
  have facts: "dict_get r (?ks ! j) = Inr (rvals ! j) \<and>
      tf_add (rvals ! j) (tf_scale (0.5 * h) (grad_density lj z (?ks ! j))) = Inr (snd (ps ! j)) \<and>
      tf_add (snd (z ! j)) (tf_scale h (snd (ps ! j))) = Inr (fst (ps ! j))"
    if j: "j < ?n" for j
  proof -
    from a j have "kick_drift z r h lj (?ks ! j) = Inr (ps ! j)" by simp
    from kick_drift_InrD[OF this] obtain zv rv where
      1: "dict_get z (?ks ! j) = Inr zv" and 2: "dict_get r (?ks ! j) = Inr rv"
      and 3: "tf_add rv (tf_scale (0.5 * h) (grad_density lj z (?ks ! j))) = Inr (snd (ps ! j))"
      and 4: "tf_add zv (tf_scale h (snd (ps ! j))) = Inr (fst (ps ! j))"
      by blast
    have "zv = snd (z ! j)"
      using 1 dict_get_nth[OF d j] j by simp
    moreover have "rvals ! j = rv"
      using 2 j by (simp add: rvals_def)
    ultimately show ?thesis using 2 3 4 by simp
  qed
  have a': "\<forall>j<length z'. kick_drift z' r' (- h) lj (map fst z' ! j) = Inr (ps' ! j)"
  proof (intro allI impI)
    fix j assume "j < length z'"
    then have j: "j < ?n" using lz' by simp
    have 1: "dict_get z' (?ks ! j) = Inr (fst (ps ! j))"
      using dict_get_zip_nth[OF d, of "map fst ps" j] lp j by (simp add: z')
    have 2: "dict_get r' (?ks ! j) = Inr (rs ! j)"
      using dict_get_zip_nth[OF d, of rs j] lr j by (simp add: r')
    from b j have "tf_add (snd (ps ! j)) (tf_scale (0.5 * h) (grad_density lj z' (?ks ! j)))
        = Inr (rs ! j)"
      by (simp add: kick_def)
    from tf_add_undo[OF this]
    have 3: "tf_add (rs ! j) (tf_scale (0.5 * (- h)) (grad_density lj z' (?ks ! j)))
        = Inr (snd (ps ! j))"
      by simp
    from facts[OF j] have "tf_add (snd (z ! j)) (tf_scale h (snd (ps ! j))) = Inr (fst (ps ! j))"
      by simp
    from tf_add_undo[OF this]
    have 4: "tf_add (fst (ps ! j)) (tf_scale (- h) (snd (ps ! j))) = Inr (snd (z ! j))" .
    have "ps' ! j = (snd (z ! j), snd (ps ! j))"
      using j lp by (simp add: ps'_def)
    then show "kick_drift z' r' (- h) lj (map fst z' ! j) = Inr (ps' ! j)"
      using kick_drift_InrI[OF 1 2 3 4] kz' by simp
  qed
  have b': "\<forall>j<length z'. kick (- h) (snd (ps' ! j), grad_density lj z (map fst z' ! j))
      = Inr (rvals ! j)"
  proof (intro allI impI)
    fix j assume "j < length z'"
    then have j: "j < ?n" using lz' by simp
    from facts[OF j] have
      "tf_add (rvals ! j) (tf_scale (0.5 * h) (grad_density lj z (?ks ! j))) = Inr (snd (ps ! j))"
      by simp
    from tf_add_undo[OF this]
    have "tf_add (snd (ps ! j)) (tf_scale (0.5 * (- h)) (grad_density lj z (?ks ! j)))
        = Inr (rvals ! j)"
      by simp
    moreover have "snd (ps' ! j) = snd (ps ! j)"
      using j lp by (simp add: ps'_def)
    ultimately show "kick (- h) (snd (ps' ! j), grad_density lj z (map fst z' ! j))
        = Inr (rvals ! j)"
      using kz' by (simp add: kick_def)
  qed
  have zz: "z = zip (map fst z') (map fst ps')"
    by (simp add: kz' fst_ps' zip_map_fst_snd)
  have rr: "zip ?ks rvals = zip (map fst z') rvals"
    by (simp add: kz')
  have "\<exists>ps rs. length ps = length z' \<and> length rs = length z' \<and>
        z = zip (map fst z') (map fst ps) \<and> zip ?ks rvals = zip (map fst z') rs \<and>
        (\<forall>j<length z'. kick_drift z' r' (- h) lj (map fst z' ! j) = Inr (ps ! j)) \<and>
        (\<forall>j<length z'. kick (- h) (snd (ps ! j), grad_density lj z (map fst z' ! j))
            = Inr (rs ! j))"
  proof (intro exI conjI)
    show "length ps' = length z'" using lps' lz' by simp
    show "length rvals = length z'" using lrv lz' by simp
    show "z = zip (map fst z') (map fst ps')" by (rule zz)
    show "zip ?ks rvals = zip (map fst z') rvals" by (rule rr)
    show "\<forall>j<length z'. kick_drift z' r' (- h) lj (map fst z' ! j) = Inr (ps' ! j)"
      by (rule a')
    show "\<forall>j<length z'. kick (- h) (snd (ps' ! j), grad_density lj z (map fst z' ! j))
        = Inr (rvals ! j)"
      by (rule b')
  qed
  then have bwd: "leapfrog insertion_order z' r' (- h) lj = Inr (z, zip ?ks rvals)"
    unfolding leapfrog_insertion_iff[OF d'] .
  have k: "map fst (zip ?ks rvals) = ?ks"
    using lrv by simp
  have g: "\<forall>k\<in>set ?ks. dict_get (zip ?ks rvals) k = dict_get r k"
  proof
    fix k assume "k \<in> set ?ks"
    then obtain j where j: "j < ?n" "?ks ! j = k"
      by (metis in_set_conv_nth length_map)
    have "dict_get (zip ?ks rvals) (?ks ! j) = Inr (rvals ! j)"
      using dict_get_zip_nth[OF d, of rvals j] lrv j by simp
    then show "dict_get (zip ?ks rvals) k = dict_get r k"
      using facts[OF j(1)] j(2) by simp
  qed
  show ?thesis using bwd kz' k g by blast
qed

lemma leapfrog_cong_r:
  assumes ok: "layout_ok lay" and d: "distinct (map fst z)"
    and e: "\<forall>k\<in>set (map fst z). dict_get r k = dict_get r2 k"
  shows "leapfrog lay z r h lj = leapfrog lay z r2 h lj"
proof -
  have "map_err (kick_drift z r h lj) (iterkeys lay z)
      = map_err (kick_drift z r2 h lj) (iterkeys lay z)"
  proof (rule map_err_cong)
    fix k assume "k \<in> set (iterkeys lay z)"
    then have "k \<in> set (map fst z)" by (simp only: iterkeys_set[OF ok d])
    then have "dict_get r k = dict_get r2 k" using e by blast
    then show "kick_drift z r h lj k = kick_drift z r2 h lj k"
      unfolding kick_drift_def by (simp only:)
  qed
  then show ?thesis
    by (simp add: leapfrog_eq_maps[OF ok d] leapfrog_maps_def)
qed

lemma leapfrog_steps_snoc:
  "leapfrog_steps lay n zr h lj = Inr zr1 \<Longrightarrow>
   leapfrog_steps lay (Suc n) zr h lj = leapfrog lay (fst zr1) (snd zr1) h lj"
proof (induction n arbitrary: zr)
  case 0
  then show ?case by (simp split: sum.splits)
next
  case (Suc n)
  from Suc.prems obtain zr' where s: "leapfrog lay (fst zr) (snd zr) h lj = Inr zr'"
    and r: "leapfrog_steps lay n zr' h lj = Inr zr1"
    by (auto split: sum.splits)
  have "leapfrog_steps lay (Suc (Suc n)) zr h lj = leapfrog_steps lay (Suc n) zr' h lj"
    using s by simp
  then show ?case using Suc.IH[OF r] by simp
qed

text \<open>
  On an interpreter that iterates every dictionary in the order of insertion the
  leapfrog steps are reversible: \<open>n\<close> steps with \<open>- h\<close> lead back to the same
  position dictionary and to a momentum dictionary with the same keys and values.
\<close>

lemma leapfrog_steps_reverse:
  assumes "leapfrog_steps insertion_order n (z, r) h lj = Inr (zn, rn)"
    "distinct (map fst z)" "set (map fst r) = set (map fst z)"
  shows "\<exists>r'. leapfrog_steps insertion_order n (zn, rn) (- h) lj = Inr (z, r') \<and> dict_eq r' r"
  using assms
proof (induction n arbitrary: z r)
  case 0
  then show ?case by (simp add: dict_eq_def)
next
  case (Suc n)
  from Suc.prems(1) obtain z1 r1 where s: "leapfrog insertion_order z r h lj = Inr (z1, r1)"
    and rest: "leapfrog_steps insertion_order n (z1, r1) h lj = Inr (zn, rn)"
    by (auto split: sum.splits)
  note k1 = leapfrog_keys[OF s layout_ok_insertion Suc.prems(2)]
  have "set (map fst r1) = set (map fst z1)" using k1(5,6) by simp
  from Suc.IH[OF rest k1(3) this] obtain r1' where
    b: "leapfrog_steps insertion_order n (zn, rn) (- h) lj = Inr (z1, r1')"
    and e: "dict_eq r1' r1"
    by blast
  have "set (map fst r1') = set (map fst z1)"
    and "\<forall>k\<in>set (map fst r1'). dict_get r1' k = dict_get r1 k"
    using e k1(5,6) unfolding dict_eq_def by blast+
  then have "\<forall>k\<in>set (map fst z1). dict_get r1' k = dict_get r1 k"
    by blast
  then have c: "leapfrog insertion_order z1 r1' (- h) lj = leapfrog insertion_order z1 r1 (- h) lj"
    by (rule leapfrog_cong_r[OF layout_ok_insertion k1(3)])
  from leapfrog_reverse[OF s Suc.prems(2)] obtain r'' where
    l: "leapfrog insertion_order z1 r1 (- h) lj = Inr (z, r'')"
    and kk: "map fst r'' = map fst z"
    and g: "\<forall>k\<in>set (map fst z). dict_get r'' k = dict_get r k"
    by blast
  have "leapfrog_steps insertion_order (Suc n) (zn, rn) (- h) lj = Inr (z, r'')"
    using leapfrog_steps_snoc[OF b] c l by simp
  moreover have "dict_eq r'' r"
    unfolding dict_eq_def kk using g Suc.prems(3) by blast
  ultimately show ?case by blast
qed


subsection \<open>The examples, evaluated\<close>

lemmas layout_simps = iteritems_def iterkeys_def itervalues_def insertion_order_def
  reverse_order_def map_filter_simps

lemma ex_leap: "leapfrog insertion_order [(''x'', Tensor [2] [1, 0]), (''y'', Tensor [2] [2, 0])]
   [(''x'', Tensor [2] [0, 0]), (''y'', Tensor [2] [1, 0])] 1 gaussian
  = Inr ([(''x'', Tensor [2] [1/2, 0]), (''y'', Tensor [2] [2, 0])],
         [(''x'', Tensor [2] [-3/4, 0]), (''y'', Tensor [2] [-1, 0])])"
  by (simp add: leapfrog_def leapfrog_body1_def leapfrog_body2_def enumerate_from_def
      layout_simps tf_gradients_def gaussian_def dict_get_def list_get_def
      tf_add_def tf_scale_def same_shape_def upt_rec)

lemma ex_leap2: "leapfrog insertion_order [(''x'', Tensor [2] [1 / 2, 0]), (''y'', Tensor [2] [2, 0])]
   [(''x'', Tensor [2] [- (3 / 4), 0]), (''y'', Tensor [2] [- 1, 0])] 1 gaussian
  = Inr ([(''x'', Tensor [2] [- (1 / 2), 0]), (''y'', Tensor [2] [0, 0])],
         [(''x'', Tensor [2] [- (3 / 4), 0]), (''y'', Tensor [2] [- 2, 0])])"
  by (simp add: leapfrog_def leapfrog_body1_def leapfrog_body2_def enumerate_from_def
      layout_simps tf_gradients_def gaussian_def dict_get_def list_get_def
      tf_add_def tf_scale_def same_shape_def upt_rec)

lemma ex_steps2:
  "leapfrog_steps insertion_order 2
      ([(''x'', Tensor [2] [1, 0]), (''y'', Tensor [2] [2, 0])],
       [(''x'', Tensor [2] [0, 0]), (''y'', Tensor [2] [1, 0])]) 1 gaussian
   = Inr ([(''x'', Tensor [2] [- (1 / 2), 0]), (''y'', Tensor [2] [0, 0])],
          [(''x'', Tensor [2] [- (3 / 4), 0]), (''y'', Tensor [2] [- 2, 0])])"
  using ex_leap ex_leap2 by (simp add: numeral_2_eq_2)

lemma ex_leap_rev:
  "leapfrog reverse_order [(''y'', Tensor [2] [2, 0]), (''x'', Tensor [2] [1, 0])]
     [(''y'', Tensor [2] [0, 0]), (''x'', Tensor [2] [1, 0])] 1 gaussian
   = Inr ([(''x'', Tensor [2] [3 / 2, 0]), (''y'', Tensor [2] [1, 0])],
          [(''x'', Tensor [2] [0, 0]), (''y'', Tensor [2] [- (7 / 4), 0])])"
  by (simp add: leapfrog_def leapfrog_body1_def leapfrog_body2_def enumerate_from_def
      layout_simps tf_gradients_def gaussian_def dict_get_def list_get_def
      tf_add_def tf_scale_def same_shape_def upt_rec)

lemma ex_leap_rev_back:
  "leapfrog reverse_order [(''x'', Tensor [2] [3 / 2, 0]), (''y'', Tensor [2] [1, 0])]
     [(''x'', Tensor [2] [0, 0]), (''y'', Tensor [2] [- (7 / 4), 0])] (- 1) gaussian
   = Inr ([(''y'', Tensor [2] [9 / 4, 0]), (''x'', Tensor [2] [3 / 4, 0])],
          [(''y'', Tensor [2] [- (7 / 8), 0]), (''x'', Tensor [2] [15 / 8, 0])])"
  by (simp add: leapfrog_def leapfrog_body1_def leapfrog_body2_def enumerate_from_def
      layout_simps tf_gradients_def gaussian_def dict_get_def list_get_def
      tf_add_def tf_scale_def same_shape_def upt_rec)

lemma ex_leap_rev_nan:
  "leapfrog reverse_order [(''y'', Tensor [2] [2, 0]), (''x'', Tensor [2] [1, 0])]
     [(''y'', Tensor [2] [0, 0]), (''x'', Tensor [2] [1, 0])] 1 nan_target
   = Inr ([(''x'', Tensor [2] [3 / 2, 0]), (''y'', Tensor [2] [1, 0])],
          [(''x'', Tensor [2] [0, 0]), (''y'', Tensor [2] [- (7 / 4), 0])])"
  by (simp add: leapfrog_def leapfrog_body1_def leapfrog_body2_def enumerate_from_def
      layout_simps tf_gradients_def gaussian_def nan_target_def dict_get_def list_get_def
      tf_add_def tf_scale_def same_shape_def upt_rec)

lemma nan_target_value: "log_density nan_target z = NaN"
  by (simp add: nan_target_def)

lemma ln_half_neg: "ln (1 / 2 :: real) < 0"
  by (rule ln_less_zero) simp_all

lemma ln_half_bound: "ln (1 / 2 :: real) * 32 < 3"
  using ln_half_neg by linarith

lemma ln_nine_tenths: "- (1 / 9) \<le> ln (9 / 10 :: real)"
proof -
  have "ln (10 / 9 :: real) \<le> 10 / 9 - 1" by (rule ln_le_minus_one) simp
  moreover have "ln (9 / 10 :: real) = - ln (10 / 9)"
    using ln_inverse[of "10 / 9 :: real"] by simp
  ultimately show ?thesis by simp
qed

lemma ln_nine_tenths_bound: "\<not> ln (9 / 10 :: real) * 32 < - 5"
  using ln_nine_tenths by linarith

lemma gaussian_values:
  "log_density gaussian [(''x'', Tensor [2] [1, 0]), (''y'', Tensor [2] [2, 0])] = Fin (- (5 / 2))"
  "log_density gaussian [(''x'', Tensor [2] [1 / 2, 0]), (''y'', Tensor [2] [2, 0])]
     = Fin (- (17 / 8))"
  "log_density gaussian [(''y'', Tensor [2] [2, 0]), (''x'', Tensor [2] [1, 0])] = Fin (- (5 / 2))"
  "log_density gaussian [(''x'', Tensor [2] [3 / 2, 0]), (''y'', Tensor [2] [1, 0])]
     = Fin (- (13 / 8))"
  by (simp_all add: gaussian_def)

lemma chain2_update:
  "build_update insertion_order chain2 gaussian draws (1 / 2) = Inr chain2_result"
  using ln_half_bound
  by (simp add: build_update_def chain2_def layout_simps read_old_sample_def tf_gather_def
     get_event_shape_def normal_sample_def draws_def py_range_def upt_rec ex_leap
     kinetic_terms_def tf_reduce_sum_def tf_scale_def tf_square_def same_shape_def
     fsub_def tf_log_def tf_cond_def scatter_op_def dict_get_def
     tf_select_def Let_def gaussian_values chain2_result_def)

lemma chain2_distinct: "distinct (map fst (latent_vars chain2))"
  by (simp add: chain2_def)

lemma chain2_run: "run_update (assign_ops chain2_result) chain2 = Inr chain2_after"
  by (simp add: run_update_def run_op_def chain2_result_def chain2_def chain2_after_def
      dict_get_def)

lemma chain2_ok: "chain_ok (latent_vars chain2)"
  by (simp add: chain_ok_def chain2_def has_shape_def get_event_shape_def)

lemma gaussian_grad_fits:
  "dict_get z key = Inr x \<Longrightarrow> same_shape (grad_density gaussian z key) x"
  by (simp add: gaussian_def same_shape_def tf_scale_def)

lemma chain2_returns:
  assumes "layout_ok lay"
  shows "\<exists>res self'. build_update lay chain2 gaussian gauss u = Inr res \<and>
     run_update (assign_ops res) chain2 = Inr self'"
proof (rule update_step_returns[where s = "[2]", OF assms])
  show "distinct (map fst (latent_vars chain2))" by (rule chain2_distinct)
  show "0 \<le> t_var chain2" by (simp add: chain2_def)
  show "t_var chain2 < int (length (params qz))"
    if "qz \<in> set (map snd (latent_vars chain2))" for qz
    using that by (auto simp: chain2_def)
  show "get_event_shape qz = [2]"
    if "qz \<in> set (map snd (latent_vars chain2))" for qz
    using that by (auto simp: chain2_def get_event_shape_def)
  show "chain_ok (latent_vars chain2)" by (rule chain2_ok)
  show "\<forall>z' key x. dict_get z' key = Inr x \<longrightarrow>
      same_shape (grad_density gaussian z' key) x"
    using gaussian_grad_fits by blast
qed

lemma chain1_update:
  "build_update reverse_order chain1 gaussian draws (9 / 10) = Inr chain1_result"
  using ln_nine_tenths_bound
  by (simp add: build_update_def chain1_def chain2_def layout_simps read_old_sample_def
     tf_gather_def get_event_shape_def normal_sample_def draws_def py_range_def upt_rec
     ex_leap_rev kinetic_terms_def tf_reduce_sum_def tf_scale_def tf_square_def
     same_shape_def fsub_def tf_log_def tf_cond_def scatter_op_def dict_get_def
     tf_select_def Let_def gaussian_values chain1_result_def)

lemma chain1_nan_update:
  "build_update reverse_order chain1 nan_target draws (1 / 2) = Inr chain1_nan_result"
  by (simp add: build_update_def chain1_def chain2_def layout_simps read_old_sample_def
     tf_gather_def get_event_shape_def normal_sample_def draws_def py_range_def upt_rec
     ex_leap_rev_nan kinetic_terms_def tf_reduce_sum_def tf_scale_def tf_square_def
     same_shape_def fsub_def tf_log_def tf_cond_def scatter_op_def dict_get_def
     tf_select_def Let_def nan_target_value chain1_result_def chain1_nan_result_def)

lemma chain1_run: "run_update (assign_ops chain1_result) chain1 = Inr chain1_after"
  by (simp add: run_update_def run_op_def chain1_result_def chain1_def chain2_def
      chain1_after_def dict_get_def)

lemma chain1_nan_run: "run_update (assign_ops chain1_nan_result) chain1 = Inr chain1_after"
  by (simp add: run_update_def run_op_def chain1_result_def chain1_nan_result_def chain1_def
      chain2_def chain1_after_def dict_get_def)


section \<open>The properties\<close>

text \<open>
  Claim C1 says that for \<open>n_steps \<ge> 1\<close> the proposal is the \<open>n_steps\<close>-fold
  iterate of the leapfrog step. The loop of \<^const>\<open>build_update\<close> passes the old sample
  and the old momentum to every call, so each pass computes the first step again, on
  every interpreter. For the example sampler, whose \<open>n_steps\<close> is 2, on an
  interpreter that iterates in the order of insertion, the proposal is the point after
  one step, which is not the point after two steps.
\<close>
theorem build_update_repeats_first_step:
  "build_update insertion_order chain2 gaussian draws (1 / 2) = Inr chain2_result \<and>
   n_steps chain2 = 2 \<and>
   leapfrog_steps insertion_order 1 (old_sample chain2_result, old_r_sample chain2_result)
     (step_size chain2) gaussian
     = Inr (new_sample chain2_result, new_r_sample chain2_result) \<and>
   leapfrog_steps insertion_order 2 (old_sample chain2_result, old_r_sample chain2_result)
     (step_size chain2) gaussian
     = Inr ([(''x'', Tensor [2] [- (1 / 2), 0]), (''y'', Tensor [2] [0, 0])],
            [(''x'', Tensor [2] [- (3 / 4), 0]), (''y'', Tensor [2] [- 2, 0])]) \<and>
   new_sample chain2_result = [(''x'', Tensor [2] [1 / 2, 0]), (''y'', Tensor [2] [2, 0])] \<and>
   new_sample chain2_result \<noteq> [(''x'', Tensor [2] [- (1 / 2), 0]), (''y'', Tensor [2] [0, 0])]"
proof -
  have o: "old_sample chain2_result = [(''x'', Tensor [2] [1, 0]), (''y'', Tensor [2] [2, 0])]"
    "old_r_sample chain2_result = [(''x'', Tensor [2] [0, 0]), (''y'', Tensor [2] [1, 0])]"
    "new_sample chain2_result = [(''x'', Tensor [2] [1 / 2, 0]), (''y'', Tensor [2] [2, 0])]"
    "new_r_sample chain2_result = [(''x'', Tensor [2] [- (3 / 4), 0]), (''y'', Tensor [2] [- 1, 0])]"
    by (simp_all add: chain2_result_def)
  have s: "step_size chain2 = 1" "n_steps chain2 = 2" by (simp_all add: chain2_def)
  have 1: "leapfrog_steps insertion_order 1
     (old_sample chain2_result, old_r_sample chain2_result) (step_size chain2) gaussian
     = Inr (new_sample chain2_result, new_r_sample chain2_result)"
    using ex_leap by (simp add: o s)
  have 2: "leapfrog_steps insertion_order 2
     (old_sample chain2_result, old_r_sample chain2_result) (step_size chain2) gaussian
     = Inr ([(''x'', Tensor [2] [- (1 / 2), 0]), (''y'', Tensor [2] [0, 0])],
            [(''x'', Tensor [2] [- (3 / 4), 0]), (''y'', Tensor [2] [- 2, 0])])"
    using ex_steps2 by (simp add: o s)
  show ?thesis
    using chain2_update s 1 2 by (simp add: o)
qed

text \<open>
  Claim C2. \<^const>\<open>build_update\<close> computes the log acceptance ratio as
  \<open>KE(r_old) - KE(r_new) + log p(z_new) - log p(z_old)\<close>, in this order, where the
  kinetic energy of a momentum state is one half of the sum of the squares of every
  element of every variable's momentum tensor. This holds on every interpreter: the sum
  does not depend on the order in which the momenta are iterated.
\<close>
theorem ratio_formula:
  assumes "build_update lay self lj gauss u = Inr res" and "layout_ok lay"
  shows "ratio res =
      fsub (fadd (fsub (Fin (kinetic_energy (old_r_sample res)))
                       (Fin (kinetic_energy (new_r_sample res))))
                 (log_density lj (new_sample res)))
           (log_density lj (old_sample res)) \<and>
    (\<forall>a b. log_density lj (new_sample res) = Fin a \<longrightarrow>
           log_density lj (old_sample res) = Fin b \<longrightarrow>
           ratio res = Fin (kinetic_energy (old_r_sample res)
                            - kinetic_energy (new_r_sample res) + a - b))"
proof -
  from build_update_raw[OF assms(1)] obtain k_old k_new where
    1: "tf_reduce_sum (kinetic_terms lay (old_r_sample res)) = Inr k_old" and
    2: "tf_reduce_sum (kinetic_terms lay (new_r_sample res)) = Inr k_new" and
    3: "ratio res = fsub (fadd (fsub (Fin k_old) (Fin k_new)) (log_density lj (new_sample res)))
                    (log_density lj (old_sample res))"
    by blast
  note m = momenta_distinct[OF assms]
  show ?thesis
    using 3 kinetic_sum[OF 1 assms(2) m(1)] kinetic_sum[OF 2 assms(2) m(2)]
    by (auto simp: fsub_def)
qed

theorem ratio_formula_witness:
  "build_update insertion_order chain2 gaussian draws (1 / 2) = Inr chain2_result \<and>
   ratio chain2_result =
     Fin (kinetic_energy (old_r_sample chain2_result)
          - kinetic_energy (new_r_sample chain2_result) + (- (17 / 8)) - (- (5 / 2)))"
proof -
  have n: "log_density gaussian (new_sample chain2_result) = Fin (- (17 / 8))"
    by (simp add: chain2_result_def gaussian_values)
  have o: "log_density gaussian (old_sample chain2_result) = Fin (- (5 / 2))"
    by (simp add: chain2_result_def gaussian_values)
  from ratio_formula[OF chain2_update layout_ok_insertion] n o
  have "ratio chain2_result =
     Fin (kinetic_energy (old_r_sample chain2_result)
          - kinetic_energy (new_r_sample chain2_result) + (- (17 / 8)) - (- (5 / 2)))"
    by blast
  with chain2_update show ?thesis by blast
qed

text \<open>
  Claim C3 says that the committed state is the new position for every latent variable
  when the proposal is accepted and the old position for every latent variable
  otherwise. The accept test is as the claim has it. On rejection
  \<^const>\<open>build_update\<close> pairs the keys of the proposal with the values of the old
  sample by their positions in two iterations, of two dictionaries. On an interpreter
  of the second layout these iterations disagree: the step below is rejected, and the
  state it commits and writes into the chains gives \<open>x\<close> the old value of \<open>y\<close>
  and \<open>y\<close> the old value of \<open>x\<close>, which is neither the old nor the new position.
  When the two iterations agree the committed state is as the claim has it (lemma
  \<open>build_update_sample_agree\<close>).
\<close>
theorem reject_commits_permuted_sample:
  "build_update reverse_order chain1 gaussian draws (9 / 10) = Inr chain1_result \<and>
   ratio chain1_result = Fin (- (5 / 32)) \<and>
   accept chain1_result = False \<and>
   dict_get (old_sample chain1_result) ''x'' = Inr (Tensor [2] [1, 0]) \<and>
   dict_get (old_sample chain1_result) ''y'' = Inr (Tensor [2] [2, 0]) \<and>
   dict_get (new_sample chain1_result) ''x'' = Inr (Tensor [2] [3 / 2, 0]) \<and>
   dict_get (new_sample chain1_result) ''y'' = Inr (Tensor [2] [1, 0]) \<and>
   dict_get (sample chain1_result) ''x'' = Inr (Tensor [2] [2, 0]) \<and>
   dict_get (sample chain1_result) ''y'' = Inr (Tensor [2] [1, 0]) \<and>
   run_update (assign_ops chain1_result) chain1 = Inr chain1_after \<and>
   map (\<lambda>zqz. (fst zqz, params (snd zqz) ! 0)) (latent_vars chain1)
     = [(''x'', Tensor [2] [1, 0]), (''y'', Tensor [2] [2, 0])] \<and>
   map (\<lambda>zqz. (fst zqz, params (snd zqz) ! 1)) (latent_vars chain1_after)
     = [(''x'', Tensor [2] [2, 0]), (''y'', Tensor [2] [1, 0])]"
  using chain1_update chain1_run
  by (simp add: chain1_result_def chain1_after_def chain1_def chain2_def dict_get_def)

text \<open>
  Claim C4 says that the second half step of the momentum of each variable uses the
  gradient at the new position with respect to that variable. The first loop of
  \<^const>\<open>leapfrog\<close> pairs the keys of the old position with the gradients for the
  values of the old position, two iterations of one dictionary. The second loop pairs
  the keys of the old position with the gradients for the values of the new position,
  iterations of two dictionaries. On an interpreter of the second layout these
  disagree: in the step below the half step and the position of \<open>x\<close> are as the
  claim has them, \<open>1 / 2\<close> and \<open>3 / 2\<close>, and the momentum of \<open>x\<close> should
  become \<open>1 / 2 + (1 / 2) \<cdot> (- 3 / 2) = - 1 / 4\<close>; the step adds the gradient
  with respect to \<open>y\<close> and returns \<open>1 / 2 + (1 / 2) \<cdot> (- 1) = 0\<close>. When the
  two iterations agree every key gets its own gradient (lemma
  \<open>leapfrog_when_orders_agree\<close>).
\<close>
theorem leapfrog_pairs_gradients_by_position:
  "leapfrog reverse_order [(''y'', Tensor [2] [2, 0]), (''x'', Tensor [2] [1, 0])]
     [(''y'', Tensor [2] [0, 0]), (''x'', Tensor [2] [1, 0])] 1 gaussian
   = Inr ([(''x'', Tensor [2] [3 / 2, 0]), (''y'', Tensor [2] [1, 0])],
          [(''x'', Tensor [2] [0, 0]), (''y'', Tensor [2] [- (7 / 4), 0])]) \<and>
   tf_add (Tensor [2] [1, 0])
     (tf_scale (1 / 2) (grad_density gaussian
        [(''y'', Tensor [2] [2, 0]), (''x'', Tensor [2] [1, 0])] ''x''))
     = Inr (Tensor [2] [1 / 2, 0]) \<and>
   tf_add (Tensor [2] [1, 0]) (tf_scale 1 (Tensor [2] [1 / 2, 0]))
     = Inr (Tensor [2] [3 / 2, 0]) \<and>
   tf_add (Tensor [2] [1 / 2, 0])
     (tf_scale (1 / 2) (grad_density gaussian
        [(''x'', Tensor [2] [3 / 2, 0]), (''y'', Tensor [2] [1, 0])] ''x''))
     = Inr (Tensor [2] [- (1 / 4), 0]) \<and>
   tf_add (Tensor [2] [1 / 2, 0])
     (tf_scale (1 / 2) (grad_density gaussian
        [(''x'', Tensor [2] [3 / 2, 0]), (''y'', Tensor [2] [1, 0])] ''y''))
     = Inr (Tensor [2] [0, 0]) \<and>
   dict_get [(''x'', Tensor [2] [0, 0]), (''y'', Tensor [2] [- (7 / 4), 0])] ''x''
     = Inr (Tensor [2] [0, 0])"
  using ex_leap_rev
  by (simp add: gaussian_def dict_get_def tf_add_def tf_scale_def same_shape_def)



text \<open>
  Claim C6. Every position and momentum state of an update step (the old sample, the
  momentum draws, the proposal, and the committed sample) has exactly the latent
  variables as its keys and holds for each a tensor of that variable's event shape; the
  leapfrog step maps states over a key set to states over the same key set and keeps the
  shapes; and the chains keep rows of the event shape after the assignments have run.
  The chains hold rows of the event shape to begin with. This holds on every
  interpreter: a step that returns has summed the kinetic terms, which needs one common
  event shape, so that no pairing by position can give a variable a tensor of another
  shape.
\<close>
theorem states_keep_keys_and_shapes:
  assumes b: "build_update lay self lj gauss u = Inr res"
    and ok: "layout_ok lay"
    and d: "distinct (map fst (latent_vars self))"
    and c: "chain_ok (latent_vars self)"
  shows "state_ok (latent_vars self) (old_sample res) \<and>
     state_ok (latent_vars self) (old_r_sample res) \<and>
     state_ok (latent_vars self) (new_sample res) \<and>
     state_ok (latent_vars self) (new_r_sample res) \<and>
     state_ok (latent_vars self) (sample res) \<and>
     (\<forall>z r h z' r'. distinct (map fst z) \<longrightarrow> leapfrog lay z r h lj = Inr (z', r') \<longrightarrow>
        set (map fst z') = set (map fst z) \<and> set (map fst r') = set (map fst z) \<and>
        distinct (map fst z') \<and> distinct (map fst r')) \<and>
     (\<forall>z r h z' r'. state_ok (latent_vars self) z \<longrightarrow> state_ok (latent_vars self) r \<longrightarrow>
        leapfrog lay z r h lj = Inr (z', r') \<longrightarrow>
        state_ok (latent_vars self) z' \<and> state_ok (latent_vars self) r') \<and>
     (\<forall>self'. run_update (assign_ops res) self = Inr self' \<longrightarrow>
        map fst (latent_vars self') = map fst (latent_vars self) \<and>
        chain_ok (latent_vars self'))"
proof -
  let ?lv = "latent_vars self"
  have o: "state_ok ?lv (old_sample res)" by (rule old_sample_ok[OF b ok d c])
  have m: "state_ok ?lv (old_r_sample res)" by (rule old_r_sample_ok[OF b ok d])
  have n: "state_ok ?lv (new_sample res) \<and> state_ok ?lv (new_r_sample res)"
    by (rule new_sample_ok[OF b ok d c])
  have s: "state_ok ?lv (sample res)" by (rule sample_ok[OF b ok d c])
  have k: "\<forall>z r h z' r'. distinct (map fst z) \<longrightarrow> leapfrog lay z r h lj = Inr (z', r') \<longrightarrow>
        set (map fst z') = set (map fst z) \<and> set (map fst r') = set (map fst z) \<and>
        distinct (map fst z') \<and> distinct (map fst r')"
  proof (intro allI impI)
    fix z r h z' r'
    assume dz: "distinct (map fst z)" and l: "leapfrog lay z r h lj = Inr (z', r')"
    show "set (map fst z') = set (map fst z) \<and> set (map fst r') = set (map fst z) \<and>
        distinct (map fst z') \<and> distinct (map fst r')"
      using leapfrog_keys(3,4,5,6)[OF l ok dz] by simp
  qed
  have p: "\<forall>z r h z' r'. state_ok ?lv z \<longrightarrow> state_ok ?lv r \<longrightarrow>
        leapfrog lay z r h lj = Inr (z', r') \<longrightarrow> state_ok ?lv z' \<and> state_ok ?lv r'"
    using leapfrog_state_ok[OF _ ok] by blast
  have w: "\<forall>self'. run_update (assign_ops res) self = Inr self' \<longrightarrow>
        map fst (latent_vars self') = map fst ?lv \<and> chain_ok (latent_vars self')"
    using chains_after_run[OF b ok d c] by blast
  show ?thesis using o m n s k p w by blast
qed

theorem states_keep_keys_and_shapes_witness:
  "build_update insertion_order chain2 gaussian draws (1 / 2) = Inr chain2_result \<and>
   layout_ok insertion_order \<and>
   distinct (map fst (latent_vars chain2)) \<and>
   chain_ok (latent_vars chain2) \<and>
   state_ok (latent_vars chain2) (new_r_sample chain2_result) \<and>
   state_ok (latent_vars chain2) (sample chain2_result) \<and>
   run_update (assign_ops chain2_result) chain2 = Inr chain2_after \<and>
   chain_ok (latent_vars chain2_after)"
proof -
  from states_keep_keys_and_shapes[OF chain2_update layout_ok_insertion chain2_distinct
      chain2_ok] chain2_run
  have "state_ok (latent_vars chain2) (new_r_sample chain2_result)"
    and "state_ok (latent_vars chain2) (sample chain2_result)"
    and "chain_ok (latent_vars chain2_after)"
    by blast+
  with chain2_update layout_ok_insertion chain2_distinct chain2_ok chain2_run
  show ?thesis by blast
qed

text \<open>
  Claim C7 says that on a NaN ratio the step rejects, recommits the old sample and
  leaves the acceptance counter as it is. The accept test is false and the counter
  keeps its value, on every interpreter. What is recommitted is the old sample paired
  by position with the keys of the proposal, as for every rejected step: on an
  interpreter of the second layout the step below, whose target has a NaN log density,
  writes into the chain of \<open>x\<close> the old value of \<open>y\<close> and into the chain of
  \<open>y\<close> the old value of \<open>x\<close>.
\<close>
theorem nan_reject_commits_permuted_sample:
  "build_update reverse_order chain1 nan_target draws (1 / 2) = Inr chain1_nan_result \<and>
   ratio chain1_nan_result = NaN \<and>
   accept chain1_nan_result = False \<and>
   dict_get (old_sample chain1_nan_result) ''x'' = Inr (Tensor [2] [1, 0]) \<and>
   dict_get (old_sample chain1_nan_result) ''y'' = Inr (Tensor [2] [2, 0]) \<and>
   dict_get (sample chain1_nan_result) ''x'' = Inr (Tensor [2] [2, 0]) \<and>
   dict_get (sample chain1_nan_result) ''y'' = Inr (Tensor [2] [1, 0]) \<and>
   run_update (assign_ops chain1_nan_result) chain1 = Inr chain1_after \<and>
   n_accept chain1_after = n_accept chain1 \<and>
   map (\<lambda>zqz. (fst zqz, params (snd zqz) ! 0)) (latent_vars chain1)
     = [(''x'', Tensor [2] [1, 0]), (''y'', Tensor [2] [2, 0])] \<and>
   map (\<lambda>zqz. (fst zqz, params (snd zqz) ! 1)) (latent_vars chain1_after)
     = [(''x'', Tensor [2] [2, 0]), (''y'', Tensor [2] [1, 0])]"
  using chain1_nan_update chain1_nan_run
  by (simp add: chain1_nan_result_def chain1_result_def chain1_after_def chain1_def
      chain2_def dict_get_def)

text \<open>
  Claim C8 says that \<open>n\<close> leapfrog steps with step size \<open>h\<close> followed by
  \<open>n\<close> steps with step size \<open>- h\<close> lead back to the start. With the second
  half step of \<^const>\<open>leapfrog\<close> taking the gradients by position, on an interpreter
  of the second layout one step forward and one step back from \<open>x = 1\<close>,
  \<open>y = 2\<close> with momenta \<open>1\<close> and \<open>0\<close> end at \<open>x = 3 / 4\<close>,
  \<open>y = 9 / 4\<close> with momenta \<open>15 / 8\<close> and \<open>- 7 / 8\<close>. On an interpreter
  that iterates in the order of insertion the steps do lead back (lemma
  \<open>leapfrog_steps_reverse\<close>).
\<close>
theorem leapfrog_round_trip_misses_start:
  "leapfrog_steps reverse_order 1
     ([(''y'', Tensor [2] [2, 0]), (''x'', Tensor [2] [1, 0])],
      [(''y'', Tensor [2] [0, 0]), (''x'', Tensor [2] [1, 0])]) 1 gaussian
   = Inr ([(''x'', Tensor [2] [3 / 2, 0]), (''y'', Tensor [2] [1, 0])],
          [(''x'', Tensor [2] [0, 0]), (''y'', Tensor [2] [- (7 / 4), 0])]) \<and>
   leapfrog_steps reverse_order 1
     ([(''x'', Tensor [2] [3 / 2, 0]), (''y'', Tensor [2] [1, 0])],
      [(''x'', Tensor [2] [0, 0]), (''y'', Tensor [2] [- (7 / 4), 0])]) (- 1) gaussian
   = Inr ([(''y'', Tensor [2] [9 / 4, 0]), (''x'', Tensor [2] [3 / 4, 0])],
          [(''y'', Tensor [2] [- (7 / 8), 0]), (''x'', Tensor [2] [15 / 8, 0])]) \<and>
   dict_get [(''y'', Tensor [2] [2, 0]), (''x'', Tensor [2] [1, 0])] ''x''
     = Inr (Tensor [2] [1, 0]) \<and>
   dict_get [(''y'', Tensor [2] [9 / 4, 0]), (''x'', Tensor [2] [3 / 4, 0])] ''x''
     = Inr (Tensor [2] [3 / 4, 0])"
  using ex_leap_rev ex_leap_rev_back by (simp add: dict_get_def)

text \<open>
  Claim C9. Running the assignments of a step adds exactly 1 to the acceptance counter
  when the proposal is accepted and exactly 0 when it is rejected; the addition is the
  last assignment of the group and no other assignment of the group changes the counter.
\<close>
theorem counter_increment:
  assumes b: "build_update lay self lj gauss u = Inr res"
    and r: "run_update (assign_ops res) self = Inr self'"
  shows "n_accept self' = n_accept self + (if accept res then 1 else 0) \<and>
     (\<exists>ops. assign_ops res = ops @ [AssignAdd (if accept res then 1 else 0)] \<and>
        (\<forall>a s s'. a \<in> set ops \<longrightarrow> run_op a s = Inr s' \<longrightarrow> n_accept s' = n_accept s))"
proof -
  from build_update_raw[OF b] obtain ops where
    f: "for_each (scatter_op (t_var self) (sample res)) (iteritems lay (latent_vars self)) []
          = Inr ops"
    and a: "assign_ops res = ops @ [AssignAdd (tf_select (accept res) 1 0)]"
    by blast
  have z: "add_amount a = 0" if "a \<in> set ops" for a
    using scatter_ops_keep_counter[OF f that] .
  have "(\<forall>a\<in>set l. add_amount a = 0) \<Longrightarrow> sum_list (map add_amount l) = 0" for l
    by (induction l) auto
  then have "sum_list (map add_amount ops) = 0"
    using z by blast
  then have c: "n_accept self' = n_accept self + (if accept res then 1 else 0)"
    using run_ops_counter[of "assign_ops res" self self'] r
    by (simp add: run_update_def a add_amount_def tf_select_def)
  have "\<forall>a s s'. a \<in> set ops \<longrightarrow> run_op a s = Inr s' \<longrightarrow> n_accept s' = n_accept s"
    using run_op_counter z by fastforce
  then show ?thesis using c a by (auto simp: tf_select_def)
qed

theorem counter_increment_witness:
  "build_update insertion_order chain2 gaussian draws (1 / 2) = Inr chain2_result \<and>
   run_update (assign_ops chain2_result) chain2 = Inr chain2_after \<and>
   accept chain2_result \<and>
   n_accept chain2_after = n_accept chain2 + 1"
proof -
  have a: "accept chain2_result" by (simp add: chain2_result_def)
  from counter_increment[OF chain2_update chain2_run] a
  have "n_accept chain2_after = n_accept chain2 + 1" by simp
  with chain2_update chain2_run a show ?thesis by blast
qed

text \<open>
  Claim C10. With \<open>n_steps = 0\<close> (or below) the loop body never runs, so the proposal
  is the initial point; when the log joint density is finite there the ratio is exactly 0,
  and for every uniform draw in \<open>(0, 1)\<close> the step accepts, adds 1 to the acceptance
  counter and writes at row \<open>t\<close> the value it read at row \<open>max (t - 1) 0\<close>. The
  step does return when the chains have a row \<open>t\<close> and the latent variables share one
  event shape. This holds on every interpreter: the proposal and the old sample are one
  dictionary, whose iterations agree.
\<close>
theorem zero_steps_accepts:
  assumes ok: "layout_ok lay"
    and d: "distinct (map fst (latent_vars self))"
    and n: "n_steps self \<le> 0"
    and u: "0 < u" "u < 1"
    and f: "log_density lj
              (map (\<lambda>zqz. (fst zqz, params (snd zqz) ! nat (max (t_var self - 1) 0)))
                 (iteritems lay (latent_vars self))) = Fin x"
  shows "(\<forall>res. build_update lay self lj gauss u = Inr res \<longrightarrow>
       new_sample res = old_sample res \<and> new_r_sample res = old_r_sample res \<and>
       ratio res = Fin 0 \<and> accept res \<and>
       (\<forall>self'. run_update (assign_ops res) self = Inr self' \<longrightarrow>
          n_accept self' = n_accept self + 1 \<and>
          (\<forall>j<length (latent_vars self).
             params (snd (latent_vars self' ! j)) ! nat (t_var self) =
             params (snd (latent_vars self ! j)) ! nat (max (t_var self - 1) 0)))) \<and>
     (0 \<le> t_var self \<longrightarrow>
      (\<forall>qz\<in>set (map snd (latent_vars self)).
         t_var self < int (length (params qz)) \<and> get_event_shape qz = s) \<longrightarrow>
      (\<exists>res self'. build_update lay self lj gauss u = Inr res \<and>
         run_update (assign_ops res) self = Inr self'))"
proof (intro conjI allI impI)
  fix res assume b: "build_update lay self lj gauss u = Inr res"
  show same1: "new_sample res = old_sample res"
    and same2: "new_r_sample res = old_r_sample res"
    using build_update_simulate[OF b] n by auto
  from build_update_raw[OF b] obtain k_old k_new where
    1: "tf_reduce_sum (kinetic_terms lay (old_r_sample res)) = Inr k_old" and
    2: "tf_reduce_sum (kinetic_terms lay (new_r_sample res)) = Inr k_new" and
    3: "ratio res = fsub (fadd (fsub (Fin k_old) (Fin k_new)) (log_density lj (new_sample res)))
                    (log_density lj (old_sample res))" and
    4: "accept res = fless (tf_log u) (ratio res)"
    by blast
  have "k_new = k_old" using 1 2 same2 by simp
  then show rat: "ratio res = Fin 0"
    using 3 same1 f build_update_old(1)[OF b ok d] by (simp add: fsub_def)
  have "ln u < 0" using u by (rule ln_less_zero)
  then show acc: "accept res" using 4 rat u by (simp add: tf_log_def)
  fix self' assume r: "run_update (assign_ops res) self = Inr self'"
  show "n_accept self' = n_accept self + 1"
    using run_update_result(1)[OF b ok d r] acc by (simp add: tf_select_def)
  fix j assume j: "j < length (latent_vars self)"
  have m: "latent_vars self ! j \<in> set (latent_vars self)" using j by simp
  from run_update_rows(1)[OF b ok d r j] obtain v where
    g: "dict_get (sample res) (fst (latent_vars self ! j)) = Inr v"
    and w: "params (snd (latent_vars self' ! j)) ! nat (t_var self) = v"
    by blast
  have "dict_get (sample res) (fst (latent_vars self ! j)) =
      Inr (params (snd (latent_vars self ! j)) ! nat (max (t_var self - 1) 0))"
    using build_update_sample_same[OF b ok d same1] build_update_old(3)[OF b ok d] m
    by simp
  then show "params (snd (latent_vars self' ! j)) ! nat (t_var self) =
        params (snd (latent_vars self ! j)) ! nat (max (t_var self - 1) 0)"
    using g w by simp
next
  assume t0: "0 \<le> t_var self"
    and w: "\<forall>qz\<in>set (map snd (latent_vars self)).
         t_var self < int (length (params qz)) \<and> get_event_shape qz = s"
  from build_update_zero_total[OF ok d n t0, of s lj gauss u] w
  obtain res where b: "build_update lay self lj gauss u = Inr res" by blast
  have "t_var self < int (length (params (snd zqz)))" if "zqz \<in> set (latent_vars self)" for zqz
    using w that by simp
  from run_update_total[OF b ok d t0 this]
  obtain self' where "run_update (assign_ops res) self = Inr self'" by blast
  with b show "\<exists>res self'. build_update lay self lj gauss u = Inr res \<and>
         run_update (assign_ops res) self = Inr self'"
    by blast
qed

theorem zero_steps_accepts_witness:
  "layout_ok insertion_order \<and>
   distinct (map fst (latent_vars chain0)) \<and> n_steps chain0 \<le> 0 \<and>
   (0::real) < 1 / 2 \<and> (1 / 2 :: real) < 1 \<and> 0 \<le> t_var chain0 \<and>
   (\<exists>res self'.
     build_update insertion_order chain0 gaussian draws (1 / 2) = Inr res \<and>
     run_update (assign_ops res) chain0 = Inr self' \<and>
     new_sample res = old_sample res \<and> new_r_sample res = old_r_sample res \<and>
     ratio res = Fin 0 \<and> accept res \<and>
     n_accept self' = n_accept chain0 + 1 \<and>
     params (snd (latent_vars self' ! 0)) ! nat (t_var chain0) =
       params (snd (latent_vars chain0 ! 0)) ! nat (max (t_var chain0 - 1) 0))"
proof -
  have d: "distinct (map fst (latent_vars chain0))"
    by (simp add: chain0_def chain2_def)
  have n: "n_steps chain0 \<le> 0" by (simp add: chain0_def)
  have t0: "0 \<le> t_var chain0" by (simp add: chain0_def chain2_def)
  have w: "\<forall>qz\<in>set (map snd (latent_vars chain0)).
      t_var chain0 < int (length (params qz)) \<and> get_event_shape qz = [2]"
    by (simp add: chain0_def chain2_def get_event_shape_def)
  have f: "log_density gaussian
              (map (\<lambda>zqz. (fst zqz, params (snd zqz) ! nat (max (t_var chain0 - 1) 0)))
                 (iteritems insertion_order (latent_vars chain0))) = Fin (- (5 / 2))"
    by (simp add: chain0_def chain2_def gaussian_def layout_simps)
  have l: "(0::nat) < length (latent_vars chain0)" by (simp add: chain0_def chain2_def)
  note z = zero_steps_accepts[OF layout_ok_insertion d n _ _ f, of "1 / 2" draws "[2]"]
  from z t0 w obtain res self' where
    b: "build_update insertion_order chain0 gaussian draws (1 / 2) = Inr res"
    and r: "run_update (assign_ops res) chain0 = Inr self'"
    by auto
  from z b r l have "new_sample res = old_sample res \<and> new_r_sample res = old_r_sample res \<and>
     ratio res = Fin 0 \<and> accept res \<and>
     n_accept self' = n_accept chain0 + 1 \<and>
     params (snd (latent_vars self' ! 0)) ! nat (t_var chain0) =
       params (snd (latent_vars chain0 ! 0)) ! nat (max (t_var chain0 - 1) 0)"
    by simp
  with b r d n t0 layout_ok_insertion show ?thesis by auto
qed

end
